theory Spec2Isabelle
  imports Main "HOL-Library.Sublist"
begin

section \<open>Strings of the C++ standard library\<close>

text \<open>
  A \<open>std::string\<close> is a \<open>string\<close> (a list of bytes). Positions and sizes are
  \<open>size_t\<close> values, modelled as \<open>nat\<close>; \<open>std::string::npos\<close> is \<open>None\<close>.
  Where the source subtracts two \<open>size_t\<close> values that may wrap, the wrap-around modulo
  \<open>2 ^ 64\<close> is written out.
\<close>

definition SIZE_MOD :: nat where
  "SIZE_MOD = 2 ^ 64"

definition ULONG_MAX :: nat where
  "ULONG_MAX = 2 ^ 64 - 1"

definition size_sub :: "nat \<Rightarrow> nat \<Rightarrow> nat" where
  \<comment> \<open>\<open>a - b\<close> on \<open>size_t\<close>\<close>
  "size_sub a b = (a + SIZE_MOD - b mod SIZE_MOD) mod SIZE_MOD"

definition size_add :: "nat \<Rightarrow> nat \<Rightarrow> nat" where
  \<comment> \<open>\<open>a + b\<close> on \<open>size_t\<close>\<close>
  "size_add a b = (a + b) mod SIZE_MOD"

fun index_of :: "char \<Rightarrow> string \<Rightarrow> nat option" where
  "index_of c [] = None"
| "index_of c (x # xs) = (if x = c then Some 0 else map_option Suc (index_of c xs))"

definition find_char :: "string \<Rightarrow> char \<Rightarrow> nat \<Rightarrow> nat option" where
  \<comment> \<open>\<open>s.find(c, pos)\<close>\<close>
  "find_char s c pos = map_option (\<lambda>i. pos + i) (index_of c (drop pos s))"

fun index_of_str :: "string \<Rightarrow> string \<Rightarrow> nat option" where
  "index_of_str pat [] = (if pat = [] then Some 0 else None)"
| "index_of_str pat (x # xs) =
     (if prefix pat (x # xs) then Some 0 else map_option Suc (index_of_str pat xs))"

definition find_str :: "string \<Rightarrow> string \<Rightarrow> nat \<Rightarrow> nat option" where
  \<comment> \<open>\<open>s.find(pat, pos)\<close>\<close>
  "find_str s pat pos =
     (if length s < pos then None
      else map_option (\<lambda>i. pos + i) (index_of_str pat (drop pos s)))"

definition rfind_char :: "string \<Rightarrow> char \<Rightarrow> nat \<Rightarrow> nat option" where
  \<comment> \<open>\<open>s.rfind(c, pos)\<close>: the last occurrence that starts at or before \<open>pos\<close>\<close>
  "rfind_char s c pos =
     (let front = take (Suc pos) s
      in map_option (\<lambda>j. length front - 1 - j) (index_of c (rev front)))"

fun index_not_of :: "string \<Rightarrow> string \<Rightarrow> nat option" where
  "index_not_of chars [] = None"
| "index_not_of chars (x # xs) =
     (if x \<notin> set chars then Some 0 else map_option Suc (index_not_of chars xs))"

definition find_first_not_of :: "string \<Rightarrow> string \<Rightarrow> nat \<Rightarrow> nat option" where
  \<comment> \<open>\<open>s.find_first_not_of(chars, pos)\<close>\<close>
  "find_first_not_of s chars pos =
     map_option (\<lambda>i. pos + i) (index_not_of chars (drop pos s))"

definition substr :: "string \<Rightarrow> nat \<Rightarrow> nat \<Rightarrow> string" where
  \<comment> \<open>\<open>s.substr(pos, n)\<close> for \<open>pos \<le> s.size()\<close>; the callers below check the range\<close>
  "substr s pos n = take n (drop pos s)"

definition replace_str :: "string \<Rightarrow> nat \<Rightarrow> nat \<Rightarrow> string \<Rightarrow> string" where
  \<comment> \<open>\<open>s.replace(pos, n, t)\<close> for \<open>pos \<le> s.size()\<close>\<close>
  "replace_str s pos n t = take pos s @ t @ drop (pos + n) s"

definition starts_with :: "string \<Rightarrow> string \<Rightarrow> bool" where
  "starts_with s p = (take (length p) s = p)"

definition digit_char :: "nat \<Rightarrow> char" where
  "digit_char d = ''0123456789'' ! d"

fun to_string :: "nat \<Rightarrow> string" where
  \<comment> \<open>\<open>std::to_string\<close> of an unsigned value: its decimal digits\<close>
  "to_string n = (if n < 10 then [digit_char n] else to_string (n div 10) @ [digit_char (n mod 10)])"

declare to_string.simps [simp del]

definition isdigit :: "char \<Rightarrow> bool" where
  \<comment> \<open>\<open>std::isdigit\<close> on an \<open>unsigned char\<close>, C locale\<close>
  "isdigit c = (c \<in> set ''0123456789'')"

definition digit_value :: "char \<Rightarrow> nat" where
  "digit_value c = (case index_of c ''0123456789'' of Some d \<Rightarrow> d | None \<Rightarrow> 0)"

definition decimal_value :: "string \<Rightarrow> nat" where
  "decimal_value s = foldl (\<lambda>a c. 10 * a + digit_value c) 0 s"

definition stoul :: "string \<Rightarrow> nat option" where
  \<comment> \<open>\<open>std::stoul\<close> on a string of decimal digits; \<open>None\<close> is \<open>std::out_of_range\<close>,
      thrown when the value does not fit an \<open>unsigned long\<close>. On text that does not
      start with a digit it throws \<open>std::invalid_argument\<close>; the callers below
      check \<open>isDigits\<close> first.\<close>
  "stoul s = (if decimal_value s \<le> ULONG_MAX then Some (decimal_value s) else None)"

section \<open>ParsingError.cpp\<close>

text \<open>The members \<open>line_\<close>, \<open>column_\<close> and \<open>detail_\<close> of the class are the fields
  \<open>error_line\<close>, \<open>error_column\<close> and \<open>error_detail\<close>; \<open>what\<close> is the message of the
  \<open>std::runtime_error\<close> it derives from.\<close>

record ParsingError =
  what :: string
  error_line :: nat
  error_column :: nat
  error_detail :: string

definition ParsingError_msg :: "string \<Rightarrow> ParsingError" where
  \<comment> \<open>\<open>ParsingError(const std::string& msg)\<close>; the line and the column keep their
      default member initialiser 0\<close>
  "ParsingError_msg msg = \<lparr>what = msg, error_line = 0, error_column = 0, error_detail = msg\<rparr>"

definition ParsingError_loc :: "nat \<Rightarrow> nat \<Rightarrow> string \<Rightarrow> ParsingError" where
  \<comment> \<open>\<open>ParsingError(size_t line, size_t column, std::string detail)\<close>\<close>
  "ParsingError_loc l c d = \<lparr>what = d, error_line = l, error_column = c, error_detail = d\<rparr>"

definition ParsingError_loc_msg :: "nat \<Rightarrow> nat \<Rightarrow> string \<Rightarrow> string \<Rightarrow> ParsingError" where
  \<comment> \<open>\<open>ParsingError(size_t line, size_t column, std::string detail, const std::string& message)\<close>\<close>
  "ParsingError_loc_msg l c d m = \<lparr>what = m, error_line = l, error_column = c, error_detail = d\<rparr>"

text \<open>What leaves a function instead of its result: a \<open>ParsingError\<close>, another exception
  of the standard library, or an access the language leaves undefined. \<open>OutOfFuel\<close> is
  no behaviour of the program: it marks the end of the recursion bound that the model of
  \<open>preprocessCode\<close> carries.\<close>

datatype failure =
  ParsingErr ParsingError
| StdOutOfRange
| UndefinedBehaviour
| OutOfFuel

section \<open>CodePreprocessing.cpp: error locations\<close>

definition isDigits :: "string \<Rightarrow> bool" where
  "isDigits text = (if text = [] then False else list_all isdigit text)"

record LineColumn =
  line :: nat
  column :: nat

definition lineStartOf :: "string \<Rightarrow> nat \<Rightarrow> nat" where
  \<comment> \<open>the \<open>lineStart\<close> both location functions compute from \<open>code.rfind('\n', offset)\<close>\<close>
  "lineStartOf code offset = (case rfind_char code (CHR 0x0A) offset of None \<Rightarrow> 0 | Some p \<Rightarrow> p + 1)"

definition lineColumnForOffset :: "string \<Rightarrow> nat \<Rightarrow> LineColumn" where
  "lineColumnForOffset code offset =
     (let lineStart = lineStartOf code offset
      in \<lparr>line = 1 + length (filter (\<lambda>c. c = CHR 0x0A) (take lineStart code)),
          column = size_add (size_sub offset lineStart) 1\<rparr>)"

definition lineColumnForTarget :: "string \<Rightarrow> nat \<Rightarrow> string \<Rightarrow> LineColumn" where
  "lineColumnForTarget code instructionStart target =
     (let location = lineColumnForOffset code instructionStart;
          lineStart = lineStartOf code instructionStart;
          lineEnd = (case find_char code (CHR 0x0A) instructionStart of
                       None \<Rightarrow> length code | Some p \<Rightarrow> p);
          lineText = substr code lineStart (size_sub lineEnd lineStart)
      in case (if target \<noteq> [] then find_str lineText target 0 else None) of
           Some targetPos \<Rightarrow> location\<lparr>column := targetPos + 1\<rparr>
         | None \<Rightarrow>
             (case find_first_not_of lineText [CHR '' '', CHR 0x09] 0 of
                Some nonSpace \<Rightarrow> location\<lparr>column := nonSpace + 1\<rparr>
              | None \<Rightarrow> location))"

definition formatParseError :: "string \<Rightarrow> nat \<Rightarrow> string \<Rightarrow> string \<Rightarrow> string" where
  "formatParseError code instructionStart detail target =
     (let location = lineColumnForTarget code instructionStart target
      in ''<input>:'' @ to_string (line location) @ '':'' @ to_string (column location)
           @ '': '' @ detail)"

definition invalidTargetDetail :: "string \<Rightarrow> string \<Rightarrow> string" where
  "invalidTargetDetail target context = ''Invalid target qubit '' @ target @ context @ ''.''"

definition invalidRegisterDetail :: "string \<Rightarrow> string" where
  "invalidRegisterDetail trimmedLine = ''Invalid register declaration '' @ trimmedLine @ ''.''"

section \<open>CodePreprocessing.cpp: target validation\<close>

type_synonym registers = "string \<rightharpoonup> nat"

definition invalidTarget :: "string \<Rightarrow> nat \<Rightarrow> string \<Rightarrow> string \<Rightarrow> failure" where
  \<comment> \<open>the \<open>throw\<close> that four branches of \<open>validateTargets\<close> share\<close>
  "invalidTarget code instructionStart target context =
     ParsingErr (ParsingError_msg
       (formatParseError code instructionStart (invalidTargetDetail target context) target))"

definition validateTarget ::
  "string \<Rightarrow> nat \<Rightarrow> string \<Rightarrow> registers \<Rightarrow> string list \<Rightarrow> string \<Rightarrow> failure + unit" where
  \<comment> \<open>one iteration of the loop of \<open>validateTargets\<close>; \<open>Inr ()\<close> is \<open>continue\<close>\<close>
  "validateTarget code instructionStart target definedRegisters shadowedRegisters context =
     (if target = [] then
        Inl (ParsingErr (ParsingError_msg
          (formatParseError code instructionStart (''Empty target'' @ context @ ''.'') [])))
      else case find_char target (CHR ''['') 0 of
        None \<Rightarrow> Inr ()
      | Some open \<Rightarrow>
          (case find_char target (CHR '']'') (open + 1) of
             None \<Rightarrow> Inl (invalidTarget code instructionStart target context)
           | Some close \<Rightarrow>
               if open = 0 \<or> close \<noteq> length target - 1 then
                 Inl (invalidTarget code instructionStart target context)
               else
                 let registerName = substr target 0 open;
                     indexText = substr target (open + 1) (close - open - 1)
                 in if \<not> isDigits indexText then
                      Inl (invalidTarget code instructionStart target context)
                    else case stoul indexText of
                      None \<Rightarrow> Inl (invalidTarget code instructionStart target context)
                    | Some registerIndex \<Rightarrow>
                        if registerName \<in> set shadowedRegisters then Inr ()
                        else (case definedRegisters registerName of
                                None \<Rightarrow> Inl (invalidTarget code instructionStart target context)
                              | Some sz \<Rightarrow>
                                  if sz \<le> registerIndex then
                                    Inl (invalidTarget code instructionStart target context)
                                  else Inr ())))"

fun validateTargets ::
  "string \<Rightarrow> nat \<Rightarrow> string list \<Rightarrow> registers \<Rightarrow> string list \<Rightarrow> string \<Rightarrow> failure + unit" where
  "validateTargets code instructionStart [] definedRegisters shadowedRegisters context = Inr ()"
| "validateTargets code instructionStart (target # targets) definedRegisters shadowedRegisters context =
     (case validateTarget code instructionStart target definedRegisters shadowedRegisters context of
        Inl e \<Rightarrow> Inl e
      | Inr _ \<Rightarrow>
          validateTargets code instructionStart targets definedRegisters shadowedRegisters context)"

section \<open>Utils: string helpers\<close>

text \<open>
  \<open>common/parsing/Utils.hpp\<close> is not among the sources; \<open>CodePreprocessing.cpp\<close> calls
  its \<open>trim\<close>, \<open>splitString\<close>, \<open>replaceString\<close> and \<open>removeWhitespace\<close>.
\<close>

definition isspace :: "char \<Rightarrow> bool" where
  \<comment> \<open>\<open>std::isspace\<close>, C locale: space, \<open>\t\<close>, \<open>\n\<close>, \<open>\v\<close>, \<open>\f\<close>, \<open>\r\<close>\<close>
  "isspace c = (c \<in> set [CHR '' '', CHR 0x09, CHR 0x0A, CHR 0x0B, CHR 0x0C, CHR 0x0D])"

definition trim :: "string \<Rightarrow> string" where
  \<comment> \<open>Modelled from the spec: \<open>trim\<close> of Utils is missing; it removes the white space
      at both ends of the text.\<close>
  "trim s = rev (dropWhile isspace (rev (dropWhile isspace s)))"

definition removeWhitespace :: "string \<Rightarrow> string" where
  \<comment> \<open>Modelled from the spec: \<open>removeWhitespace\<close> of Utils is missing; it removes every
      white-space character.\<close>
  "removeWhitespace s = filter (\<lambda>c. \<not> isspace c) s"

fun split_fields :: "char list \<Rightarrow> string \<Rightarrow> string list" where
  "split_fields ds [] = [[]]"
| "split_fields ds (c # cs) =
     (if c \<in> set ds then [] # split_fields ds cs
      else (case split_fields ds cs of
              f # fs \<Rightarrow> (c # f) # fs
            | [] \<Rightarrow> [[c]]))"

definition splitString :: "string \<Rightarrow> char list \<Rightarrow> bool \<Rightarrow> string list" where
  \<comment> \<open>Modelled from the spec: \<open>splitString\<close> of Utils is missing (the spec: "split the
      block-elided text on \<open>;\<close> and \<open>}\<close>", "\<open>;\<close>-separated fragments"); it cuts the text at
      every delimiter and, unless \<open>includeEmpty\<close>, drops the empty pieces.\<close>
  "splitString text delimiters includeEmpty =
     (if includeEmpty then split_fields delimiters text
      else filter (\<lambda>f. f \<noteq> []) (split_fields delimiters text))"

function replaceString :: "string \<Rightarrow> string \<Rightarrow> string \<Rightarrow> string" where
  \<comment> \<open>Modelled from the spec: \<open>replaceString\<close> of Utils is missing; it replaces, from left
      to right, every occurrence of \<open>old\<close> by \<open>new\<close>. Every call has a non-empty \<open>old\<close>.\<close>
  "replaceString [] old new = []"
| "replaceString (c # cs) old new =
     (if old \<noteq> [] \<and> prefix old (c # cs)
      then new @ replaceString (drop (length old) (c # cs)) old new
      else c # replaceString cs old new)"
  by pat_completeness auto
termination
  by (relation "measure (\<lambda>(s, old, new). length s)") (auto simp: neq_Nil_conv)

section \<open>CodePreprocessing.cpp: comments and blocks\<close>

definition blankComment :: "string \<Rightarrow> nat \<Rightarrow> string" where
  \<comment> \<open>the body of the loop of \<open>removeComments\<close> after \<open>nextComment\<close> is found\<close>
  "blankComment result nextComment =
     (let commentEnd = (case find_char result (CHR 0x0A) nextComment of
                          None \<Rightarrow> length result | Some e \<Rightarrow> e);
          spaces = replicate (commentEnd - nextComment) (CHR '' '')
      in replace_str result nextComment (commentEnd - nextComment) spaces)"

lemma index_of_bound: "index_of c xs = Some i \<Longrightarrow> i < length xs"
  by (induction xs arbitrary: i) (auto split: if_splits)

lemma find_char_bounds: "find_char s c pos = Some p \<Longrightarrow> pos \<le> p \<and> p < length s"
  by (auto simp: find_char_def dest!: index_of_bound)

lemma length_blankComment: "nextComment \<le> length result \<Longrightarrow> length (blankComment result nextComment) = length result"
  by (auto simp: blankComment_def replace_str_def Let_def split: option.splits dest!: find_char_bounds)

lemma index_of_str_bound: "index_of_str pat xs = Some i \<Longrightarrow> i \<le> length xs"
  by (induction xs arbitrary: i) (auto split: if_splits)

lemma find_str_bounds: "find_str s pat pos = Some p \<Longrightarrow> pos \<le> p \<and> p \<le> length s"
  by (auto simp: find_str_def split: if_splits dest!: index_of_str_bound)

function removeCommentsLoop :: "string \<Rightarrow> nat \<Rightarrow> string" where
  \<comment> \<open>\<open>for (size_t pos = 0; pos < result.size(); pos++)\<close>\<close>
  "removeCommentsLoop result pos =
     (if pos < length result then
        (case find_str result ''//'' pos of
           None \<Rightarrow> result
         | Some nextComment \<Rightarrow> removeCommentsLoop (blankComment result nextComment) (pos + 1))
      else result)"
  by pat_completeness auto
termination
  by (relation "measure (\<lambda>(result, pos). length result - pos)")
     (auto simp: length_blankComment dest!: find_str_bounds)

declare removeCommentsLoop.simps [simp del]

definition removeComments :: "string \<Rightarrow> string" where
  "removeComments code = removeCommentsLoop code 0"

type_synonym blocks = "(string \<times> string) list"

fun blocks_assign :: "blocks \<Rightarrow> string \<Rightarrow> string \<Rightarrow> blocks" where
  \<comment> \<open>\<open>blocks[name] = block\<close> on a \<open>std::map\<close>\<close>
  "blocks_assign [] name block = [(name, block)]"
| "blocks_assign ((n, b) # rest) name block =
     (if n = name then (name, block) # rest else (n, b) # blocks_assign rest name block)"

definition blocks_at :: "blocks \<Rightarrow> string \<Rightarrow> string" where
  \<comment> \<open>reading \<open>blocks[name]\<close>: a missing key gives the empty string\<close>
  "blocks_at blocks name = (case map_of blocks name of None \<Rightarrow> [] | Some b \<Rightarrow> b)"

definition blockNameOf :: "nat \<Rightarrow> string" where
  "blockNameOf n = ''$__block'' @ to_string n @ ''$;''"

lemma to_string_digits: "set (to_string n) \<subseteq> set ''0123456789''"
proof (induction n rule: to_string.induct)
  case (1 n)
  have d: "m < 10 \<Longrightarrow> digit_char m \<in> set ''0123456789''" for m
    unfolding digit_char_def by (rule nth_mem) simp
  show ?case
  proof (cases "n < 10")
    case True
    then have "to_string n = [digit_char n]" by (subst to_string.simps) simp
    with d [OF True] show ?thesis by simp
  next
    case False
    then have "to_string n = to_string (n div 10) @ [digit_char (n mod 10)]"
      by (subst to_string.simps) simp
    moreover have "digit_char (n mod 10) \<in> set ''0123456789''" by (rule d) simp
    ultimately show ?thesis using 1 [OF False] by simp
  qed
qed

lemma blockNameOf_no_brace: "count_list (blockNameOf n) (CHR ''}'') = 0"
  using to_string_digits [of n] by (auto simp: blockNameOf_def count_list_0_iff)

lemma count_list_drop_Suc:
  "pos < length r \<Longrightarrow>
   count_list (drop pos r) c = (if r ! pos = c then 1 else 0) + count_list (drop (Suc pos) r) c"
  by (subst Cons_nth_drop_Suc [symmetric]) auto

lemma count_list_drop_mono: "count_list (drop (a + b) r) c \<le> count_list (drop a r) c"
proof (induction b)
  case 0
  show ?case by simp
next
  case (Suc b)
  show ?case
  proof (cases "a + b < length r")
    case True
    from count_list_drop_Suc [OF True, of c] Suc show ?thesis by (simp split: if_splits)
  next
    case False
    then show ?thesis by simp
  qed
qed

lemma sweep_replace_count:
  assumes "pos < length r" "r ! pos = CHR ''}''"
  shows "count_list (drop (Suc start) (replace_str r start (Suc pos - start) (blockNameOf n))) (CHR ''}'')
         < count_list (drop pos r) (CHR ''}'')"
proof -
  let ?c = "\<lambda>xs. count_list xs (CHR ''}'')"
  have tail: "?c (drop (start + (Suc pos - start)) r) \<le> ?c (drop (Suc pos) r)"
  proof (cases "start \<le> Suc pos")
    case True
    then show ?thesis by simp
  next
    case False
    then have "start + (Suc pos - start) = Suc pos + (start - Suc pos)" by simp
    then show ?thesis using count_list_drop_mono [of "Suc pos" "start - Suc pos" r] by simp
  qed
  have "?c (drop (Suc start) (take start r @ blockNameOf n @ drop (start + (Suc pos - start)) r))
        \<le> ?c (blockNameOf n @ drop (start + (Suc pos - start)) r)"
  proof (cases "start \<le> length r")
    case True
    then have "drop (Suc start) (take start r @ blockNameOf n @ drop (start + (Suc pos - start)) r)
               = drop 1 (blockNameOf n @ drop (start + (Suc pos - start)) r)"
      by (simp add: min_def)
    then show ?thesis
      using count_list_drop_mono [of 0 1 "blockNameOf n @ drop (start + (Suc pos - start)) r"]
      by simp
  next
    case False
    then show ?thesis
      using count_list_drop_mono
        [of 0 "Suc start - length r" "blockNameOf n @ drop (start + (Suc pos - start)) r"]
      by simp
  qed
  also have "\<dots> \<le> ?c (drop (Suc pos) r)"
    using tail by (simp add: blockNameOf_no_brace)
  also have "\<dots> < ?c (drop pos r)"
    using count_list_drop_Suc [OF assms(1), of "CHR ''}''"] assms(2) by simp
  finally show ?thesis by (simp add: replace_str_def)
qed

function sweepBlocksLoop :: "string \<Rightarrow> nat \<Rightarrow> int \<Rightarrow> nat \<Rightarrow> blocks \<Rightarrow> string \<times> blocks" where
  \<comment> \<open>\<open>while (pos < result.size())\<close>. A block is cut only when \<open>level\<close> returns to 0, so
      \<open>start < pos\<close> there and the differences of positions do not wrap.\<close>
  "sweepBlocksLoop result start level pos blocks =
     (if pos < length result then
        (if result ! pos = CHR ''{'' then
           sweepBlocksLoop result (if level = 0 then pos else start) (level + 1) (Suc pos) blocks
         else if result ! pos = CHR ''}'' then
           (if level - 1 = 0 then
              (let block = substr result (start + 1) (pos - 1 - start);
                   blockName = blockNameOf (length blocks)
               in sweepBlocksLoop (replace_str result start (Suc pos - start) blockName)
                    start 0 (Suc start) (blocks_assign blocks blockName block))
            else sweepBlocksLoop result start (level - 1) (Suc pos) blocks)
         else sweepBlocksLoop result start level (Suc pos) blocks)
      else (result, blocks))"
  by pat_completeness auto
termination
proof (relation "measures [\<lambda>(result, start, level, pos, blocks). count_list (drop pos result) (CHR ''}''),
                           \<lambda>(result, start, level, pos, blocks). length result - pos]", goal_cases)
  case 1
  show ?case by simp
next
  case (2 result start level pos blocks)
  then show ?case using count_list_drop_Suc [of pos result "CHR ''}''"] by auto
next
  case (3 result start level pos blocks x xa)
  then show ?case using sweep_replace_count [of pos result start "length blocks"] by simp
next
  case (4 result start level pos blocks)
  then show ?case using count_list_drop_Suc [of pos result "CHR ''}''"] by auto
next
  case (5 result start level pos blocks)
  then show ?case using count_list_drop_Suc [of pos result "CHR ''}''"] by auto
qed

declare sweepBlocksLoop.simps [simp del]

definition sweepBlocks :: "string \<Rightarrow> blocks \<Rightarrow> string \<times> blocks" where
  \<comment> \<open>returns the swept code and the updated \<open>blocks\<close> map of the caller\<close>
  "sweepBlocks code blocks = sweepBlocksLoop code 0 0 0 blocks"

section \<open>CodePreprocessing.cpp: classifying and parsing one instruction\<close>

record FunctionDefinition =
  name :: string
  parameters :: "string list"

fun firstName :: "string list \<Rightarrow> nat \<Rightarrow> string \<times> nat" where
  \<comment> \<open>the first loop of \<open>parseFunctionDefinition\<close>: the name and the final \<open>index\<close>\<close>
  "firstName [] index = ([], index)"
| "firstName (part # parts) index =
     (if part \<noteq> ''gate'' \<and> part \<noteq> [] then (part, index + 1)
      else firstName parts (index + 1))"

definition blanksToSpaces :: "string \<Rightarrow> string" where
  \<comment> \<open>\<open>replaceString(replaceString(s, "\n", " "), "\t", " ")\<close>\<close>
  "blanksToSpaces s = replaceString (replaceString s [CHR 0x0A] '' '') [CHR 0x09] '' ''"

definition parseFunctionDefinition :: "string \<Rightarrow> FunctionDefinition" where
  "parseFunctionDefinition signature =
     (let parts = splitString (blanksToSpaces signature) [CHR '' ''] True;
          (nm, index) = firstName parts 0;
          parameterParts = concat (drop index parts)
      in \<lparr>name = nm,
          parameters = splitString (removeWhitespace parameterParts) [CHR '',''] True\<rparr>)"

definition isFunctionDefinition :: "string \<Rightarrow> bool" where
  "isFunctionDefinition ln = starts_with (trim ln) ''gate ''"

definition isReset :: "string \<Rightarrow> bool" where
  "isReset ln = starts_with (trim ln) ''reset ''"

definition isBarrier :: "string \<Rightarrow> bool" where
  "isBarrier ln = (starts_with (trim ln) ''barrier '' \<or> starts_with (trim ln) ''barrier;'')"

definition isClassicControlledGate :: "string \<Rightarrow> bool" where
  "isClassicControlledGate ln =
     (starts_with (trim ln) ''if'' \<and> find_char ln (CHR ''('') 0 \<noteq> None
        \<and> find_char ln (CHR '')'') 0 \<noteq> None)"

definition isMeasurement :: "string \<Rightarrow> bool" where
  "isMeasurement ln = (find_str ln ''->'' 0 \<noteq> None)"

definition isVariableDeclaration :: "string \<Rightarrow> bool" where
  "isVariableDeclaration ln = (starts_with (trim ln) ''creg '' \<or> starts_with (trim ln) ''qreg '')"

definition sweepFunctionNames :: "string \<Rightarrow> string list" where
  "sweepFunctionNames code =
     map (\<lambda>instruction. name (parseFunctionDefinition instruction))
       (filter isFunctionDefinition (splitString code [CHR '';'', CHR ''}''] True))"

record ClassicControlledGate =
  condition :: string
  operations :: "string list"

fun scanCondition :: "string \<Rightarrow> int \<Rightarrow> nat \<Rightarrow> string \<Rightarrow> nat \<times> string" where
  \<comment> \<open>the loop of \<open>parseClassicControlledGate\<close> over the rest of \<open>codeSanitized\<close> from
      position \<open>i\<close>: the final \<open>i\<close> and the condition read so far\<close>
  "scanCondition [] openBrackets i cond = (i, cond)"
| "scanCondition (c # cs) openBrackets i cond =
     (let ob = (if c = CHR ''('' then openBrackets + 1
                else if c = CHR '')'' then openBrackets - 1 else openBrackets)
      in if ob = 0 then (i, cond) else scanCondition cs ob (i + 1) (cond @ [c]))"

definition parseClassicControlledGate :: "string \<Rightarrow> failure + ClassicControlledGate" where
  \<comment> \<open>\<open>codeSanitized.substr(i + 1, \<dots>)\<close> throws \<open>std::out_of_range\<close> when the loop ran
      to the end without a \<open>break\<close>\<close>
  "parseClassicControlledGate code =
     (let codeSanitized = trim (replaceString code ''if'' []);
          (i, cond) = scanCondition codeSanitized 0 0 []
      in if length codeSanitized < i + 1 then Inl StdOutOfRange
         else
           let rest = substr codeSanitized (i + 1) (length codeSanitized - i - 1);
               rest' = replaceString (replaceString rest ''}'' []) ''{'' []
           in Inr \<lparr>condition = cond, operations = splitString rest' [CHR '';''] False\<rparr>)"

fun skipGateName :: "string list \<Rightarrow> nat \<Rightarrow> nat \<Rightarrow> nat" where
  \<comment> \<open>the loop of \<open>parseParameters\<close> over \<open>parts\<close>: the final \<open>index\<close>; \<open>openBrackets\<close> is
      a \<open>size_t\<close>\<close>
  "skipGateName [] index openBrackets = index"
| "skipGateName (part # parts) index openBrackets =
     (let ob = size_sub (size_add openBrackets (count_list part (CHR ''('')))
                 (count_list part (CHR '')''))
      in if part \<noteq> [] \<and> ob = 0 then index + 1 else skipGateName parts (index + 1) ob)"

definition plainParameters :: "string \<Rightarrow> string list" where
  \<comment> \<open>the last part of \<open>parseParameters\<close>, from \<open>auto parts = \<dots>\<close> on\<close>
  "plainParameters instruction =
     (let parts = splitString (blanksToSpaces (replaceString instruction '';'' '' '')) [CHR '' ''] True;
          index = skipGateName parts 0 0;
          parameterParts = concat (filter (\<lambda>p. p \<noteq> []) (drop index parts));
          params = splitString (removeWhitespace parameterParts) [CHR '',''] True
      in if length params = 1 \<and> hd params = [] then [] else params)"

fun collect :: "(failure + 'a list) list \<Rightarrow> failure + 'a list" where
  \<comment> \<open>appending the results of the calls of a loop; the first exception leaves the loop\<close>
  "collect [] = Inr []"
| "collect (Inl e # rs) = Inl e"
| "collect (Inr xs # rs) = (case collect rs of Inl e \<Rightarrow> Inl e | Inr ys \<Rightarrow> Inr (xs @ ys))"

lemma length_replaceString_empty: "length (replaceString s old []) \<le> length s"
proof (induction s old "[] :: string" rule: replaceString.induct)
  case (1 old)
  show ?case by simp
next
  case (2 c cs old)
  show ?case
  proof (cases "old \<noteq> [] \<and> prefix old (c # cs)")
    case True
    with 2 have "length (replaceString (drop (length old) (c # cs)) old []) \<le> length (drop (length old) (c # cs))"
      by simp
    also have "\<dots> \<le> length (c # cs)" by simp
    finally show ?thesis using True by simp
  next
    case False
    with 2 show ?thesis by auto
  qed
qed

lemma length_trim: "length (trim s) \<le> length s"
proof -
  have "length (dropWhile isspace (rev (dropWhile isspace s))) \<le> length (rev (dropWhile isspace s))"
    by (rule length_dropWhile_le)
  also have "\<dots> \<le> length s" by (simp add: length_dropWhile_le)
  finally show ?thesis by (simp add: trim_def)
qed

lemma split_fields_nonempty: "split_fields ds s \<noteq> []"
  by (induction s) (auto split: list.splits)

lemma length_split_fields: "f \<in> set (split_fields ds s) \<Longrightarrow> length f \<le> length s"
proof (induction s arbitrary: f)
  case Nil
  then show ?case by simp
next
  case (Cons c cs)
  show ?case
  proof (cases "c \<in> set ds")
    case True
    with Cons.prems have "f = [] \<or> f \<in> set (split_fields ds cs)" by simp
    then show ?thesis using Cons.IH [of f] by auto
  next
    case False
    obtain g gs where g: "split_fields ds cs = g # gs"
      using split_fields_nonempty [of ds cs] by (cases "split_fields ds cs") auto
    with Cons.prems False have "f = c # g \<or> f \<in> set gs" by simp
    then show ?thesis using Cons.IH [of g] Cons.IH [of f] g by auto
  qed
qed

lemma length_hd_split_fields:
  "c \<in> set s \<Longrightarrow> c \<in> set ds \<Longrightarrow> length (hd (split_fields ds s)) < length s"
proof (induction s)
  case Nil
  then show ?case by simp
next
  case (Cons x xs)
  show ?case
  proof (cases "x \<in> set ds")
    case True
    then show ?thesis by simp
  next
    case False
    obtain g gs where g: "split_fields ds xs = g # gs"
      using split_fields_nonempty [of ds xs] by (cases "split_fields ds xs") auto
    from False Cons have "c \<in> set xs" by auto
    with Cons g False show ?thesis by simp
  qed
qed

lemma index_of_str_mem:
  "index_of_str (p # ps) s = Some i \<Longrightarrow> p \<in> set s"
  by (induction s arbitrary: i) (auto split: if_splits simp: prefix_Cons)

lemma isMeasurement_minus: "isMeasurement s \<Longrightarrow> CHR ''-'' \<in> set s"
  by (auto simp: isMeasurement_def find_str_def dest: index_of_str_mem)

lemma classic_operation_shorter:
  assumes "parseClassicControlledGate s = Inr classic" "op \<in> set (operations classic)"
  shows "length op < length s"
proof -
  define cs where "cs = trim (replaceString s ''if'' [])"
  obtain i cond where sc: "scanCondition cs 0 0 [] = (i, cond)" by (cases "scanCondition cs 0 0 []")
  define rest where "rest = substr cs (i + 1) (length cs - i - 1)"
  from assms(1) sc have i: "i + 1 \<le> length cs"
    and ops: "operations classic = splitString (replaceString (replaceString rest ''}'' []) ''{'' []) [CHR '';''] False"
    by (auto simp: parseClassicControlledGate_def Let_def cs_def rest_def split: if_splits)
  from assms(2) ops have "length op \<le> length (replaceString (replaceString rest ''}'' []) ''{'' [])"
    by (auto simp: splitString_def dest: length_split_fields)
  also have "\<dots> \<le> length rest"
    using length_replaceString_empty [of "replaceString rest ''}'' []" "''{''"]
      length_replaceString_empty [of rest "''}''"] by simp
  also have "\<dots> < length cs" using i by (simp add: rest_def substr_def)
  also have "\<dots> \<le> length s"
    using length_trim [of "replaceString s ''if'' []"] length_replaceString_empty [of s "''if''"]
    by (simp add: cs_def)
  finally show ?thesis .
qed

function parseParameters :: "string \<Rightarrow> failure + string list" where
  "parseParameters instruction =
     (if isFunctionDefinition instruction then
        Inr (parameters (parseFunctionDefinition instruction))
      else if isMeasurement instruction then
        parseParameters (hd (splitString instruction [CHR ''-''] True))
      else if isClassicControlledGate instruction then
        (case parseClassicControlledGate instruction of
           Inl e \<Rightarrow> Inl e
         | Inr classic \<Rightarrow> collect (map parseParameters (operations classic)))
      else Inr (plainParameters instruction))"
  by pat_completeness auto
termination
proof (relation "measure length", goal_cases)
  case 1
  show ?case by simp
next
  case (2 instruction)
  then show ?case
    using length_hd_split_fields [of "CHR ''-''" instruction "[CHR ''-'']"]
    by (simp add: splitString_def isMeasurement_minus)
next
  case (3 instruction classic op)
  then show ?case by (simp add: classic_operation_shorter)
qed

declare parseParameters.simps [simp del]

section \<open>AssertionParsing: the assertion grammar\<close>

text \<open>
  \<open>common/parsing/AssertionParsing.hpp\<close> is not among the sources. \<open>preprocessCode\<close> uses
  \<open>isAssertion\<close>, \<open>parseAssertion\<close>, \<open>Assertion::validate\<close> and the target list of an
  assertion with its getter and setter. The spec gives the grammar
  \<^verbatim>\<open>Assertion := "assert-" Kind Targets [ Body ]\<close>,
  \<^verbatim>\<open>Kind := "ent" | "sup" | "eq" | "ineq"\<close>,
  \<^verbatim>\<open>Targets := Term { "," Term }\<close>,
  and what validation rejects: fewer targets than the kind requires (two for \<open>ent\<close>),
  duplicate target names, a malformed body and a tolerance that is not positive. The body
  is kept as text here; the two checks of the body are not modelled, so \<open>validate\<close> below
  accepts every body.
\<close>

datatype AssertionKind = Entanglement | Superposition | Equality | Inequality

record Assertion =
  kind :: AssertionKind
  targetQubits :: "string list"
  body :: string

definition isAssertion :: "string \<Rightarrow> bool" where
  \<comment> \<open>Modelled from the spec: \<open>isAssertion\<close> of AssertionParsing is missing; an assertion
      starts with \<open>assert-\<close>.\<close>
  "isAssertion ln = starts_with (trim ln) ''assert-''"

definition parseKind :: "string \<Rightarrow> AssertionKind option" where
  "parseKind k =
     (if k = ''ent'' then Some Entanglement
      else if k = ''sup'' then Some Superposition
      else if k = ''eq'' then Some Equality
      else if k = ''ineq'' then Some Inequality
      else None)"

definition parseAssertion :: "string \<Rightarrow> string \<Rightarrow> failure + Assertion" where
  \<comment> \<open>Modelled from the spec: \<open>parseAssertion\<close> of AssertionParsing is missing; the kind is
      the word after \<open>assert-\<close>, the targets are the comma-separated terms after it, the
      body is the block of the instruction.\<close>
  "parseAssertion assertionString blockContent =
     (let s = drop (length ''assert-'') (trim (replaceString assertionString '';'' []));
          kindText = takeWhile (\<lambda>c. \<not> isspace c) s;
          targetPart = dropWhile (\<lambda>c. \<not> isspace c) s
      in case parseKind kindText of
           None \<Rightarrow> Inl (ParsingErr (ParsingError_msg ''Expression is not a valid assertion''))
         | Some k \<Rightarrow>
             Inr \<lparr>kind = k,
                  targetQubits = splitString (removeWhitespace targetPart) [CHR '',''] True,
                  body = blockContent\<rparr>)"

definition validate :: "Assertion \<Rightarrow> failure + unit" where
  \<comment> \<open>Modelled from the spec: \<open>Assertion::validate\<close> is missing; it rejects fewer targets
      than the kind requires and duplicate target names.\<close>
  "validate a =
     (if length (targetQubits a) < (if kind a = Entanglement then 2 else 1) then
        Inl (ParsingErr (ParsingError_msg ''Assertion has too few target qubits''))
      else if \<not> distinct (targetQubits a) then
        Inl (ParsingErr (ParsingError_msg ''Assertion has duplicate target qubits''))
      else Inr ())"

section \<open>CodePreprocessing.cpp: unfolding the targets of an assertion\<close>

fun unfoldLoop ::
  "registers \<Rightarrow> string list \<Rightarrow> string list \<Rightarrow> bool \<times> string list \<Rightarrow> bool \<times> string list" where
  \<comment> \<open>the loop of \<open>unfoldAssertionTargetRegisters\<close> with its variables \<open>found\<close> and
      \<open>targets\<close>\<close>
  "unfoldLoop definedRegisters shadowedRegisters [] (found, ts) = (found, ts)"
| "unfoldLoop definedRegisters shadowedRegisters (target # rest) (found, ts) =
     (if target \<in> set shadowedRegisters then
        unfoldLoop definedRegisters shadowedRegisters rest (found, ts @ [target])
      else case definedRegisters target of
        Some n \<Rightarrow>
          unfoldLoop definedRegisters shadowedRegisters rest
            (True, ts @ map (\<lambda>i. target @ ''['' @ to_string i @ '']'') [0..<n])
      | None \<Rightarrow> unfoldLoop definedRegisters shadowedRegisters rest (found, ts @ [target]))"

definition unfoldAssertionTargetRegisters ::
  "Assertion \<Rightarrow> registers \<Rightarrow> string list \<Rightarrow> Assertion" where
  "unfoldAssertionTargetRegisters a definedRegisters shadowedRegisters =
     (case unfoldLoop definedRegisters shadowedRegisters (targetQubits a) (False, []) of
        (found, ts) \<Rightarrow> if found then a\<lparr>targetQubits := ts\<rparr> else a)"

section \<open>CodePreprocessing.cpp: the instruction array\<close>

record Block =
  valid :: bool
  blockCode :: string

text \<open>The fields of \<open>Instruction\<close> that \<open>preprocessCode\<close> writes; its field \<open>code\<close> is
  \<open>instrCode\<close> here, the field \<open>code\<close> of \<open>Block\<close> is \<open>blockCode\<close>, and the variable \<open>i\<close> of
  \<open>preprocessCode\<close> is \<open>lineIndex\<close>. The data-dependency
  pass at the start of its last loop writes \<open>dataDependencies\<close> only, cannot throw and
  reads nothing that the rest of that loop writes; the field and the pass are left out.\<close>

record Instruction =
  lineNumber :: nat
  instrCode :: string
  assertion :: "Assertion option"
  targets :: "string list"
  originalCodeStartPosition :: nat
  originalCodeEndPosition :: nat
  successorIndex :: nat
  isFunctionCall :: bool
  calledFunction :: string
  inFunctionDefinition :: bool
  isFunctionDef :: bool
  block :: Block
  childInstructions :: "nat list"
  callSubstitution :: "(string \<times> string) list"

definition mkInstruction ::
  "nat \<Rightarrow> string \<Rightarrow> Assertion option \<Rightarrow> string list \<Rightarrow> nat \<Rightarrow> nat \<Rightarrow> nat \<Rightarrow> bool \<Rightarrow> string
     \<Rightarrow> bool \<Rightarrow> bool \<Rightarrow> Block \<Rightarrow> Instruction" where
  \<comment> \<open>the constructor \<open>Instruction::Instruction\<close>\<close>
  "mkInstruction inputLineNumber inputCode inputAssertion inputTargets startPos endPos successor
       isFuncCall function inFuncDef isFuncDef inputBlock =
     \<lparr>lineNumber = inputLineNumber, instrCode = inputCode, assertion = inputAssertion,
      targets = inputTargets, originalCodeStartPosition = startPos,
      originalCodeEndPosition = endPos, successorIndex = successor,
      isFunctionCall = isFuncCall, calledFunction = function,
      inFunctionDefinition = inFuncDef, isFunctionDef = isFuncDef, block = inputBlock,
      childInstructions = [], callSubstitution = []\<rparr>"

definition map_insert :: "('k \<rightharpoonup> 'v) \<Rightarrow> 'k \<Rightarrow> 'v \<Rightarrow> ('k \<rightharpoonup> 'v)" where
  \<comment> \<open>\<open>std::map::insert\<close>: an existing key keeps its value\<close>
  "map_insert m k v = (case m k of None \<Rightarrow> m(k \<mapsto> v) | Some _ \<Rightarrow> m)"

definition alist_insert :: "('k \<times> 'v) list \<Rightarrow> 'k \<times> 'v \<Rightarrow> ('k \<times> 'v) list" where
  \<comment> \<open>\<open>std::map::insert\<close> on a map kept as a list of its entries\<close>
  "alist_insert al kv = (case map_of al (fst kv) of None \<Rightarrow> al @ [kv] | Some _ \<Rightarrow> al)"

record LoopState =
  instructions :: "Instruction list"
  lineIndex :: nat
  blocksOffset :: nat
  definedRegisters :: registers
  functionFirstLine :: "string \<rightharpoonup> nat"
  functionDefinitions :: "string \<rightharpoonup> FunctionDefinition"

function fragmentsFrom :: "string \<Rightarrow> nat \<Rightarrow> (nat \<times> nat) list" where
  \<comment> \<open>the pairs \<open>(pos, end)\<close> of the iterations of \<open>while (pos != std::string::npos)\<close>:
      every iteration that does not throw ends with \<open>pos = end + 1\<close>\<close>
  "fragmentsFrom blocksRemoved pos =
     (case find_char blocksRemoved (CHR '';'') pos of
        None \<Rightarrow> []
      | Some end \<Rightarrow> (pos, end) # fragmentsFrom blocksRemoved (end + 1))"
  by pat_completeness auto
termination
  by (relation "measure (\<lambda>(s, pos). length s - pos)") (auto dest!: find_char_bounds)

declare fragmentsFrom.simps [simp del]

record LineInfo =
  trimmedLine :: string
  tokens :: "string list"
  isAssert :: bool
  trueStart :: nat
  trueEnd :: nat
  lineBlock :: Block
  lineText :: string
  newBlocksOffset :: nat

definition readLine :: "string \<Rightarrow> blocks \<Rightarrow> nat \<Rightarrow> nat \<times> nat \<Rightarrow> LineInfo" where
  \<comment> \<open>the start of an iteration, up to the classic-controlled gate; \<open>npos + 1\<close> is 0\<close>
  "readLine blocksRemoved blocks offset frag =
     (let pos = fst frag; end = snd frag;
          ln = substr blocksRemoved pos (end - pos + 1);
          leadingPos = find_first_not_of blocksRemoved [CHR '' '', CHR 0x09, CHR 0x0D, CHR 0x0A] pos;
          start = size_add (case leadingPos of
                              Some l \<Rightarrow> if l < end then l else pos
                            | None \<Rightarrow> pos) offset;
          (blk, ln', offset') =
            (case find_str ln ''$__block'' 0 of
               None \<Rightarrow> (\<lparr>valid = False, blockCode = []\<rparr>, ln, offset)
             | Some blockPos \<Rightarrow>
                 let endPos = (case find_char ln (CHR ''$'') (blockPos + 1) of
                                 None \<Rightarrow> 0 | Some q \<Rightarrow> q + 1);
                     n = size_add (size_sub endPos blockPos) 1;
                     blockName = substr ln blockPos n;
                     blockContent = blocks_at blocks blockName
                 in (\<lparr>valid = True, blockCode = blockContent\<rparr>,
                     replace_str ln blockPos n [],
                     size_sub (size_add offset (size_add (length blockContent) 2))
                       (length blockName)));
          (blk', ln'') =
            (if valid blk \<and> isClassicControlledGate ln'
             then (\<lparr>valid = False, blockCode = []\<rparr>, ln' @ '' { '' @ blockCode blk @ '' }'')
             else (blk, ln'))
      in \<lparr>trimmedLine = trim ln,
          tokens = splitString (trim ln) [CHR '' ''] True,
          isAssert = isAssertion ln,
          trueStart = start,
          trueEnd = size_add end offset',
          lineBlock = blk',
          lineText = ln'',
          newBlocksOffset = offset'\<rparr>)"

definition invalidRegister :: "string \<Rightarrow> nat \<Rightarrow> string \<Rightarrow> failure" where
  "invalidRegister code start trimmed =
     ParsingErr (ParsingError_msg (formatParseError code start (invalidRegisterDetail trimmed) []))"

definition declareRegister :: "string \<Rightarrow> nat \<Rightarrow> string \<Rightarrow> registers \<Rightarrow> failure + registers" where
  \<comment> \<open>the body of \<open>if (isVariableDeclaration(line))\<close>\<close>
  "declareRegister code start trimmed regs =
     (let declaration = removeWhitespace
            (replaceString (replaceString trimmed ''creg'' []) ''qreg'' []);
          parts = splitString declaration [CHR ''['', CHR '']''] True;
          nm = hd parts;
          sizeText = (if length parts > 1 then parts ! 1 else [])
      in if nm = [] \<or> \<not> isDigits sizeText then Inl (invalidRegister code start trimmed)
         else case stoul sizeText of
           None \<Rightarrow> Inl (invalidRegister code start trimmed)
         | Some sz \<Rightarrow> Inr (map_insert regs nm sz))"

type_synonym preprocessor =
  "string \<Rightarrow> nat \<Rightarrow> nat \<Rightarrow> string list \<Rightarrow> registers \<Rightarrow> string list
     \<Rightarrow> failure + (Instruction list \<times> registers \<times> string)"

definition gateHeader :: "LineInfo \<Rightarrow> string list \<Rightarrow> nat \<Rightarrow> Instruction list \<Rightarrow> Instruction" where
  \<comment> \<open>the instruction of the gate definition itself: the first \<open>emplace_back\<close> of the
      branch and the loop that fills \<open>childInstructions\<close>; \<open>i2\<close> is \<open>i\<close> after
      \<open>i += subInstructions.size()\<close>\<close>
  "gateHeader info tgts i2 subInstructions =
     (mkInstruction (i2 - length subInstructions - 1) (lineText info) None tgts (trueStart info)
        (trueEnd info) (i2 + 1) False [] False True (lineBlock info))
     \<lparr>childInstructions := map lineNumber subInstructions\<rparr>"

definition gateReturn :: "string \<Rightarrow> string list \<Rightarrow> nat \<Rightarrow> Instruction list \<Rightarrow> Instruction" where
  \<comment> \<open>the synthetic \<open>RETURN\<close>: the second \<open>emplace_back\<close> of the branch; \<open>instrs\<close> are the
      instructions so far, the last of them gives the place to look for the closing brace
      (\<open>npos\<close> when there is none)\<close>
  "gateReturn code tgts i2 instrs =
     (let closingBrace =
            (case find_char code (CHR ''}'') (originalCodeEndPosition (last instrs)) of
               None \<Rightarrow> SIZE_MOD - 1 | Some q \<Rightarrow> q)
      in mkInstruction i2 ''RETURN'' None tgts closingBrace closingBrace 0
           False [] True False \<lparr>valid = False, blockCode = []\<rparr>)"

definition defineGate ::
  "preprocessor \<Rightarrow> string \<Rightarrow> string list \<Rightarrow> LineInfo \<Rightarrow> string list \<Rightarrow> LoopState
     \<Rightarrow> failure + LoopState" where
  \<comment> \<open>the body of \<open>if (isFunctionDefinition(line))\<close>; \<open>rec\<close> is the recursive call of
      \<open>preprocessCode\<close>. \<open>subInstructions[0]\<close> on an empty vector is undefined.\<close>
  "defineGate rec code functionNames info tgts st =
     (if \<not> valid (lineBlock info) then
        Inl (ParsingErr (ParsingError_msg ''Gate definitions require a body block''))
      else
        let f = parseFunctionDefinition (lineText info);
            defs = map_insert (functionDefinitions st) (name f) f;
            i1 = lineIndex st + 1;
            bodyOffset = (case find_char code (CHR ''{'') (trueStart info) of
                            None \<Rightarrow> 0 | Some q \<Rightarrow> q + 1)
        in case rec (blockCode (lineBlock info)) i1 bodyOffset functionNames
                  (definedRegisters st) (parameters f) of
             Inl e \<Rightarrow> Inl e
           | Inr (subs, regs, processedSubCode) \<Rightarrow>
               let subInstructions = map (\<lambda>instr. instr\<lparr>inFunctionDefinition := True\<rparr>) subs
               in if subInstructions = [] then Inl UndefinedBehaviour
                  else
                    let firstLines = map_insert (functionFirstLine st) (name f)
                                       (lineNumber (hd subInstructions));
                        i2 = i1 + length subInstructions;
                        instrs = instructions st @ [gateHeader info tgts i2 subInstructions]
                                   @ subInstructions
                    in Inr (st\<lparr>instructions := instrs @ [gateReturn code tgts i2 instrs],
                               lineIndex := i2 + 1,
                               blocksOffset := newBlocksOffset info,
                               definedRegisters := regs,
                               functionFirstLine := firstLines,
                               functionDefinitions := defs\<rparr>))"

definition emitInstruction ::
  "string \<Rightarrow> string list \<Rightarrow> string list \<Rightarrow> LineInfo \<Rightarrow> string list \<Rightarrow> LoopState
     \<Rightarrow> failure + LoopState" where
  \<comment> \<open>the rest of an iteration, from \<open>bool isFunctionCall = false\<close> on\<close>
  "emitInstruction code functionNames shadowedRegisters info tgts st =
     (let isCall = (tokens info \<noteq> [] \<and> hd (tokens info) \<in> set functionNames);
          called = (if isCall then hd (tokens info) else []);
          regs = definedRegisters st
      in if isAssert info then
           (case parseAssertion (lineText info) (blockCode (lineBlock info)) of
              Inl e \<Rightarrow> Inl e
            | Inr a0 \<Rightarrow>
                let a = unfoldAssertionTargetRegisters a0 regs shadowedRegisters
                in case validate a of
                     Inl e \<Rightarrow> Inl e
                   | Inr _ \<Rightarrow>
                       (case validateTargets code (trueStart info) (targetQubits a) regs
                               shadowedRegisters '' in assertion'' of
                          Inl e \<Rightarrow> Inl e
                        | Inr _ \<Rightarrow>
                            Inr (st\<lparr>instructions := instructions st @
                                      [mkInstruction (lineIndex st) (lineText info) (Some a) (targetQubits a)
                                         (trueStart info) (trueEnd info) (lineIndex st + 1) isCall called
                                         False False (lineBlock info)],
                                    lineIndex := lineIndex st + 1,
                                    blocksOffset := newBlocksOffset info\<rparr>)))
         else
           (case (if \<not> isVariableDeclaration (lineText info)
                  then validateTargets code (trueStart info) tgts regs shadowedRegisters []
                  else Inr ()) of
              Inl e \<Rightarrow> Inl e
            | Inr _ \<Rightarrow>
                Inr (st\<lparr>instructions := instructions st @
                          [mkInstruction (lineIndex st) (lineText info) None tgts
                             (trueStart info) (trueEnd info) (lineIndex st + 1) isCall called
                             False False (lineBlock info)],
                        lineIndex := lineIndex st + 1,
                        blocksOffset := newBlocksOffset info\<rparr>)))"

definition processLine ::
  "preprocessor \<Rightarrow> string \<Rightarrow> string \<Rightarrow> blocks \<Rightarrow> string list \<Rightarrow> string list \<Rightarrow> nat \<times> nat
     \<Rightarrow> LoopState \<Rightarrow> failure + LoopState" where
  \<comment> \<open>one iteration of \<open>while (pos != std::string::npos)\<close>\<close>
  "processLine rec code blocksRemoved blocks functionNames shadowedRegisters frag st =
     (let info = readLine blocksRemoved blocks (blocksOffset st) frag
      in case parseParameters (lineText info) of
           Inl e \<Rightarrow> Inl e
         | Inr tgts \<Rightarrow>
             (case (if isVariableDeclaration (lineText info)
                    then declareRegister code (trueStart info) (trimmedLine info)
                           (definedRegisters st)
                    else Inr (definedRegisters st)) of
                Inl e \<Rightarrow> Inl e
              | Inr regs \<Rightarrow>
                  let st' = st\<lparr>definedRegisters := regs\<rparr>
                  in if isFunctionDefinition (lineText info)
                     then defineGate rec code functionNames info tgts st'
                     else emitInstruction code functionNames shadowedRegisters info tgts st'))"

fun processLines ::
  "preprocessor \<Rightarrow> string \<Rightarrow> string \<Rightarrow> blocks \<Rightarrow> string list \<Rightarrow> string list
     \<Rightarrow> (nat \<times> nat) list \<Rightarrow> LoopState \<Rightarrow> failure + LoopState" where
  "processLines rec code blocksRemoved blocks functionNames shadowedRegisters [] st = Inr st"
| "processLines rec code blocksRemoved blocks functionNames shadowedRegisters (frag # frags) st =
     (case processLine rec code blocksRemoved blocks functionNames shadowedRegisters frag st of
        Inl e \<Rightarrow> Inl e
      | Inr st' \<Rightarrow>
          processLines rec code blocksRemoved blocks functionNames shadowedRegisters frags st')"

definition linkCall ::
  "(string \<rightharpoonup> nat) \<Rightarrow> (string \<rightharpoonup> FunctionDefinition) \<Rightarrow> Instruction \<Rightarrow> failure + Instruction" where
  \<comment> \<open>the body of the last loop of \<open>preprocessCode\<close> from \<open>if (instr.isFunctionCall)\<close> on;
      \<open>functionFirstLine[name]\<close> of a missing name is 0\<close>
  "linkCall firstLines defs instr =
     (if isFunctionCall instr then
        let instr1 = instr\<lparr>successorIndex :=
                       (case firstLines (calledFunction instr) of None \<Rightarrow> 0 | Some l \<Rightarrow> l)\<rparr>
        in case defs (calledFunction instr) of
             None \<Rightarrow> Inr instr1
           | Some func \<Rightarrow>
               (case parseParameters (instrCode instr) of
                  Inl e \<Rightarrow> Inl e
                | Inr arguments \<Rightarrow>
                    if length (parameters func) \<noteq> length arguments then
                      Inl (ParsingErr (ParsingError_msg
                             ''Custom gate call uses incorrect number of arguments.''))
                    else Inr (instr1\<lparr>callSubstitution :=
                                foldl alist_insert [] (zip (parameters func) arguments)\<rparr>))
      else Inr instr)"

fun linkCalls ::
  "(string \<rightharpoonup> nat) \<Rightarrow> (string \<rightharpoonup> FunctionDefinition) \<Rightarrow> Instruction list
     \<Rightarrow> failure + Instruction list" where
  "linkCalls firstLines defs [] = Inr []"
| "linkCalls firstLines defs (instr # rest) =
     (case linkCall firstLines defs instr of
        Inl e \<Rightarrow> Inl e
      | Inr instr' \<Rightarrow>
          (case linkCalls firstLines defs rest of
             Inl e \<Rightarrow> Inl e
           | Inr rest' \<Rightarrow> Inr (instr' # rest')))"

definition mainLoop ::
  "preprocessor \<Rightarrow> string \<Rightarrow> nat \<Rightarrow> nat \<Rightarrow> string list \<Rightarrow> registers \<Rightarrow> string list
     \<Rightarrow> failure + (LoopState \<times> string)" where
  \<comment> \<open>the seven-parameter \<open>preprocessCode\<close> up to the end of its \<open>while\<close> loop: the state of
      the loop and \<open>processedCode\<close>\<close>
  "mainLoop rec code startIndex initialCodeOffset allFunctionNames regs shadowedRegisters =
     (let processedCode = removeComments code;
          (blocksRemoved, blocks) = sweepBlocks processedCode [];
          functionNames = sweepFunctionNames processedCode @ allFunctionNames;
          st0 = \<lparr>instructions = [], lineIndex = startIndex, blocksOffset = initialCodeOffset,
                 definedRegisters = regs, functionFirstLine = Map.empty,
                 functionDefinitions = Map.empty\<rparr>
      in case processLines rec code blocksRemoved blocks functionNames shadowedRegisters
                (fragmentsFrom blocksRemoved 0) st0 of
           Inl e \<Rightarrow> Inl e
         | Inr st \<Rightarrow> Inr (st, processedCode))"

definition preprocessBody :: "preprocessor \<Rightarrow> preprocessor" where
  \<comment> \<open>the body of the seven-parameter \<open>preprocessCode\<close>: the \<open>while\<close> loop, then the loop
      that links the calls; it returns the instructions, the registers (a reference
      parameter) and \<open>processedCode\<close> (an output parameter)\<close>
  "preprocessBody rec code startIndex initialCodeOffset allFunctionNames regs shadowedRegisters =
     (case mainLoop rec code startIndex initialCodeOffset allFunctionNames regs shadowedRegisters of
        Inl e \<Rightarrow> Inl e
      | Inr (st, processedCode) \<Rightarrow>
          (case linkCalls (functionFirstLine st) (functionDefinitions st) (instructions st) of
             Inl e \<Rightarrow> Inl e
           | Inr instrs \<Rightarrow> Inr (instrs, definedRegisters st, processedCode)))"

primrec preprocessCodeFuel :: "nat \<Rightarrow> preprocessor" where
  \<comment> \<open>the seven-parameter \<open>preprocessCode\<close>, with a bound on the depth of its recursion\<close>
  "preprocessCodeFuel 0 = (\<lambda>code startIndex initialCodeOffset allFunctionNames regs shadowed.
                             Inl OutOfFuel)"
| "preprocessCodeFuel (Suc n) = preprocessBody (preprocessCodeFuel n)"

definition preprocessCode :: "string \<Rightarrow> failure + (Instruction list \<times> string)" where
  \<comment> \<open>the two-parameter \<open>preprocessCode\<close>; a body is shorter than the code around it, so
      the length of the code bounds the depth of the recursion\<close>
  "preprocessCode code =
     (case preprocessCodeFuel (Suc (length code)) code 0 0 [] Map.empty [] of
        Inl e \<Rightarrow> Inl e
      | Inr (instrs, regs, processedCode) \<Rightarrow> Inr (instrs, processedCode))"

section \<open>Unfolding the targets of an assertion\<close>

definition unfoldedTargets :: "registers \<Rightarrow> string list \<Rightarrow> string list \<Rightarrow> string list" where
  \<comment> \<open>the target list as the specification describes it: a target that names a declared
      register and is not shadowed gives the indexed targets of the register in ascending
      order, every other target stays\<close>
  "unfoldedTargets regs shadowed ts =
     concat (map (\<lambda>t. case regs t of
                         Some n \<Rightarrow> if t \<in> set shadowed then [t]
                                   else map (\<lambda>i. t @ ''['' @ to_string i @ '']'') [0..<n]
                       | None \<Rightarrow> [t]) ts)"

lemma unfoldLoop_eq:
  "unfoldLoop regs sh ts (found, acc) =
     (found \<or> (\<exists>t\<in>set ts. t \<notin> set sh \<and> regs t \<noteq> None), acc @ unfoldedTargets regs sh ts)"
  by (induction ts arbitrary: found acc) (auto simp: unfoldedTargets_def split: option.splits)

lemma unfoldedTargets_id:
  "\<forall>t\<in>set ts. t \<in> set sh \<or> regs t = None \<Longrightarrow> unfoldedTargets regs sh ts = ts"
  by (induction ts) (auto simp: unfoldedTargets_def split: option.splits)

lemma targetQubits_unfold:
  "targetQubits (unfoldAssertionTargetRegisters a regs sh) = unfoldedTargets regs sh (targetQubits a)"
  using unfoldedTargets_id [of "targetQubits a" sh regs]
  by (auto simp: unfoldAssertionTargetRegisters_def unfoldLoop_eq)

text \<open>
  Claim C6. \<open>unfoldAssertionTargetRegisters\<close> replaces, in place, every target of the
  assertion that names a declared register of size \<open>n\<close> and is not shadowed by the \<open>n\<close>
  indexed targets \<open>r[0]\<close>, \dots, \<open>r[n-1]\<close> in ascending order; a target that is shadowed or
  names no declared register stays where it is. Nothing else of the assertion changes.
\<close>

theorem unfold_targets:
  "targetQubits (unfoldAssertionTargetRegisters a regs sh) = unfoldedTargets regs sh (targetQubits a)
   \<and> kind (unfoldAssertionTargetRegisters a regs sh) = kind a
   \<and> body (unfoldAssertionTargetRegisters a regs sh) = body a"
  using unfoldedTargets_id [of "targetQubits a" sh regs]
  by (auto simp: unfoldAssertionTargetRegisters_def unfoldLoop_eq)

theorem unfold_targets_witness:
  "targetQubits (unfoldAssertionTargetRegisters
      \<lparr>kind = Superposition, targetQubits = [''q'', ''a'', ''z''], body = []\<rparr>
      (Map.empty(''q'' \<mapsto> 2, ''a'' \<mapsto> 3)) [''a'']) = [''q[0]'', ''q[1]'', ''a'', ''z'']"
  using unfold_targets [of "\<lparr>kind = Superposition, targetQubits = [''q'', ''a'', ''z''], body = []\<rparr>"
      "Map.empty(''q'' \<mapsto> 2, ''a'' \<mapsto> 3)" "[''a'']"]
  by (simp add: unfoldedTargets_def to_string.simps digit_char_def upt_rec)

lemma index_of_Some_iff:
  "index_of c xs = Some i \<longleftrightarrow> i < length xs \<and> xs ! i = c \<and> c \<notin> set (take i xs)"
proof (induction xs arbitrary: i)
  case Nil
  show ?case by simp
next
  case (Cons x xs)
  show ?case
  proof (cases "x = c")
    case True
    then show ?thesis by (cases i) auto
  next
    case False
    then show ?thesis using Cons by (cases i) auto
  qed
qed

lemma index_of_None_iff: "index_of c xs = None \<longleftrightarrow> c \<notin> set xs"
  by (induction xs) auto

lemma index_of_append_hit: "c \<notin> set xs \<Longrightarrow> index_of c (xs @ c # ys) = Some (length xs)"
  by (simp add: index_of_Some_iff nth_append)

lemma find_char_Some_iff:
  "find_char s c pos = Some p \<longleftrightarrow>
     pos \<le> p \<and> p < length s \<and> s ! p = c \<and> (\<forall>q. pos \<le> q \<and> q < p \<longrightarrow> s ! q \<noteq> c)"
proof -
  have set_take_drop: "c \<notin> set (take i (drop pos s)) \<longleftrightarrow> (\<forall>q. pos \<le> q \<and> q < pos + i \<longrightarrow> s ! q \<noteq> c)"
    if "pos + i \<le> length s" for i
  proof -
    have "set (take i (drop pos s)) = {s ! q | q. pos \<le> q \<and> q < pos + i}"
    proof -
      have "take i (drop pos s) = map (\<lambda>j. s ! (pos + j)) [0..<i]"
        using that by (intro nth_equalityI) auto
      then have "set (take i (drop pos s)) = (\<lambda>j. s ! (pos + j)) ` {0..<i}" by simp
      also have "\<dots> = {s ! q | q. pos \<le> q \<and> q < pos + i}"
      proof (intro set_eqI iffI)
        fix x assume "x \<in> (\<lambda>j. s ! (pos + j)) ` {0..<i}"
        then show "x \<in> {s ! q | q. pos \<le> q \<and> q < pos + i}" by auto
      next
        fix x assume "x \<in> {s ! q | q. pos \<le> q \<and> q < pos + i}"
        then obtain q where "x = s ! q" "pos \<le> q" "q < pos + i" by auto
        then have "x = s ! (pos + (q - pos))" "q - pos \<in> {0..<i}" by auto
        then show "x \<in> (\<lambda>j. s ! (pos + j)) ` {0..<i}" by blast
      qed
      finally show ?thesis .
    qed
    then show ?thesis by auto
  qed
  show ?thesis
  proof
    assume "find_char s c pos = Some p"
    then obtain i where i: "index_of c (drop pos s) = Some i" "p = pos + i"
      by (auto simp: find_char_def)
    then have "i < length s - pos" "s ! (pos + i) = c" "c \<notin> set (take i (drop pos s))"
      by (auto simp: index_of_Some_iff)
    with i set_take_drop [of i] show "pos \<le> p \<and> p < length s \<and> s ! p = c \<and> (\<forall>q. pos \<le> q \<and> q < p \<longrightarrow> s ! q \<noteq> c)"
      by auto
  next
    assume a: "pos \<le> p \<and> p < length s \<and> s ! p = c \<and> (\<forall>q. pos \<le> q \<and> q < p \<longrightarrow> s ! q \<noteq> c)"
    then have "index_of c (drop pos s) = Some (p - pos)"
      using set_take_drop [of "p - pos"] by (auto simp: index_of_Some_iff)
    with a show "find_char s c pos = Some p" by (simp add: find_char_def)
  qed
qed

lemma find_char_None_iff:
  "find_char s c pos = None \<longleftrightarrow> (\<forall>q. pos \<le> q \<and> q < length s \<longrightarrow> s ! q \<noteq> c)"
proof -
  have "c \<in> set (drop pos s) \<longleftrightarrow> (\<exists>q. pos \<le> q \<and> q < length s \<and> s ! q = c)"
  proof
    assume "c \<in> set (drop pos s)"
    then obtain j where "j < length (drop pos s)" "drop pos s ! j = c" by (auto simp: in_set_conv_nth)
    then have "pos \<le> pos + j \<and> pos + j < length s \<and> s ! (pos + j) = c" by auto
    then show "\<exists>q. pos \<le> q \<and> q < length s \<and> s ! q = c" by blast
  next
    assume "\<exists>q. pos \<le> q \<and> q < length s \<and> s ! q = c"
    then obtain q where q: "pos \<le> q" "q < length s" "s ! q = c" by auto
    then have "drop pos s ! (q - pos) = c" "q - pos < length (drop pos s)" by auto
    then show "c \<in> set (drop pos s)" by (metis nth_mem)
  qed
  then show ?thesis by (auto simp: find_char_def index_of_None_iff)
qed

section \<open>Target validation: what is accepted\<close>

definition parsingOutcome :: "failure + 'a \<Rightarrow> bool" where
  "parsingOutcome r = (case r of Inr _ \<Rightarrow> True | Inl (ParsingErr _) \<Rightarrow> True | Inl _ \<Rightarrow> False)"

lemma parsingOutcome_simps [simp]:
  "parsingOutcome (Inr x)" "parsingOutcome (Inl (ParsingErr e))"
  "\<not> parsingOutcome (Inl StdOutOfRange)" "\<not> parsingOutcome (Inl UndefinedBehaviour)"
  "\<not> parsingOutcome (Inl OutOfFuel)"
  by (simp_all add: parsingOutcome_def)

lemma parsingOutcome_iff: "parsingOutcome r \<longleftrightarrow> (\<exists>x. r = Inr x) \<or> (\<exists>e. r = Inl (ParsingErr e))"
  by (auto simp: parsingOutcome_def split: sum.splits failure.splits)

lemma validateTarget_outcome: "parsingOutcome (validateTarget code start t regs sh ctx)"
  by (simp add: validateTarget_def invalidTarget_def Let_def split: option.split)

lemma validateTarget_result:
  "validateTarget code start t regs sh ctx = Inr () \<or>
   (\<exists>e. validateTarget code start t regs sh ctx = Inl (ParsingErr e))"
  using validateTarget_outcome [of code start t regs sh ctx] by (auto simp: parsingOutcome_iff)


lemma validateTarget_bare:
  assumes "t \<noteq> []" "CHR ''['' \<notin> set t"
  shows "validateTarget code start t regs sh ctx = Inr ()"
proof -
  have "find_char t (CHR ''['') 0 = None"
    using assms(2) by (simp add: find_char_def index_of_None_iff)
  with assms(1) show ?thesis by (simp add: validateTarget_def)
qed

lemma isDigits_no_bracket: "isDigits k \<Longrightarrow> CHR '']'' \<notin> set k \<and> CHR ''['' \<notin> set k"
proof -
  assume "isDigits k"
  then have "\<forall>c\<in>set k. isdigit c" by (auto simp: isDigits_def list_all_iff split: if_splits)
  moreover have "\<not> isdigit (CHR '']'')" "\<not> isdigit (CHR ''['')" by (simp_all add: isdigit_def)
  ultimately show ?thesis by blast
qed

lemma validateTargets_Inr_iff:
  "validateTargets code start ts regs sh ctx = Inr () \<longleftrightarrow>
     (\<forall>t\<in>set ts. validateTarget code start t regs sh ctx = Inr ())"
  by (induction ts) (auto split: sum.splits)

lemma validateTargets_outcome: "parsingOutcome (validateTargets code start ts regs sh ctx)"
proof (induction ts)
  case Nil
  show ?case by simp
next
  case (Cons t ts)
  then show ?case using validateTarget_outcome [of code start t regs sh ctx]
    by (cases "validateTarget code start t regs sh ctx") auto
qed

lemma validateTarget_indexed:
  assumes "nm \<noteq> []" "CHR ''['' \<notin> set nm" "isDigits k"
  shows "validateTarget code start (nm @ ''['' @ k @ '']'') regs sh ctx =
           (if decimal_value k \<le> ULONG_MAX \<and>
               (nm \<in> set sh \<or> (\<exists>n. regs nm = Some n \<and> decimal_value k < n))
            then Inr () else Inl (invalidTarget code start (nm @ ''['' @ k @ '']'') ctx))"
proof -
  define t where "t = nm @ ''['' @ k @ '']''"
  have ne: "t \<noteq> []" by (simp add: t_def)
  have op: "find_char t (CHR ''['') 0 = Some (length nm)"
    using assms(2) by (simp add: t_def find_char_def index_of_append_hit)
  have "drop (Suc (length nm)) t = k @ '']''" by (simp add: t_def)
  then have cl: "find_char t (CHR '']'') (Suc (length nm)) = Some (Suc (length nm + length k))"
    using isDigits_no_bracket [OF assms(3)] unfolding find_char_def
    by (simp add: index_of_append_hit del: drop_append)
  have len: "length t = Suc (Suc (length nm + length k))" by (simp add: t_def)
  have rn: "substr t 0 (length nm) = nm" by (simp add: substr_def t_def)
  have it: "substr t (Suc (length nm)) (length k) = k" by (simp add: substr_def t_def)
  have "validateTarget code start t regs sh ctx =
           (if decimal_value k \<le> ULONG_MAX \<and>
               (nm \<in> set sh \<or> (\<exists>n. regs nm = Some n \<and> decimal_value k < n))
            then Inr () else Inl (invalidTarget code start t ctx))"
  proof (cases "regs nm")
    case None
    then show ?thesis
      using assms(1,3) by (simp add: validateTarget_def ne op cl len rn it stoul_def)
  next
    case (Some n)
    then show ?thesis
      using assms(1,3) by (simp add: validateTarget_def ne op cl len rn it stoul_def not_le)
  qed
  then show ?thesis by (simp add: t_def)
qed

lemma validateTarget_accepted_form:
  assumes "validateTarget code start t regs sh ctx = Inr ()"
  shows "t \<noteq> [] \<and> (CHR ''['' \<notin> set t \<or>
          (\<exists>nm k. t = nm @ ''['' @ k @ '']'' \<and> nm \<noteq> [] \<and> CHR ''['' \<notin> set nm \<and> isDigits k
             \<and> decimal_value k \<le> ULONG_MAX
             \<and> (nm \<in> set sh \<or> (\<exists>n. regs nm = Some n \<and> decimal_value k < n))))"
proof (cases "find_char t (CHR ''['') 0")
  case None
  from assms have "t \<noteq> []" by (auto simp: validateTarget_def split: if_splits)
  moreover from None have "CHR ''['' \<notin> set t"
    by (simp add: find_char_def index_of_None_iff)
  ultimately show ?thesis by simp
next
  case (Some opn)
  from assms have ne: "t \<noteq> []" by (auto simp: validateTarget_def split: if_splits)
  define nm where "nm = substr t 0 opn"
  define X where "X = invalidTarget code start t ctx"
  obtain cls where cls: "find_char t (CHR '']'') (opn + 1) = Some cls"
  proof (cases "find_char t (CHR '']'') (opn + 1)")
    case None
    with assms ne Some show ?thesis by (simp add: validateTarget_def)
  next
    case (Some c)
    with that show ?thesis by simp
  qed
  define k where "k = substr t (opn + 1) (cls - opn - 1)"
  have c: "opn \<noteq> 0" "cls = length t - 1"
  proof -
    have "\<not> (opn = 0 \<or> cls \<noteq> length t - 1)"
    proof
      assume "opn = 0 \<or> cls \<noteq> length t - 1"
      with assms ne Some cls show False by (simp add: validateTarget_def)
    qed
    then show "opn \<noteq> 0" "cls = length t - 1" by auto
  qed
  have c3: "isDigits k"
  proof (rule ccontr)
    assume "\<not> isDigits k"
    with assms ne Some cls c show False by (simp add: validateTarget_def Let_def k_def)
  qed
  obtain ri where ri: "stoul k = Some ri"
  proof (cases "stoul k")
    case None
    with assms ne Some cls c c3 show ?thesis by (simp add: validateTarget_def Let_def k_def)
  next
    case (Some r)
    with that show ?thesis by simp
  qed
  have ok: "nm \<in> set sh \<or> (\<exists>n. regs nm = Some n \<and> ri < n)"
  proof (rule ccontr)
    assume n: "\<not> (nm \<in> set sh \<or> (\<exists>n. regs nm = Some n \<and> ri < n))"
    show False
    proof (cases "regs nm")
      case None
      with n assms ne Some cls c c3 ri show ?thesis
        by (simp add: validateTarget_def Let_def k_def nm_def)
    next
      case (Some sz)
      with n have "sz \<le> ri" by auto
      with Some n assms ne \<open>find_char t (CHR ''['') 0 = Some opn\<close> cls c c3 ri show ?thesis
        by (simp add: validateTarget_def Let_def k_def nm_def)
    qed
  qed
  from Some have o: "opn < length t" "t ! opn = CHR ''[''" "\<forall>q. q < opn \<longrightarrow> t ! q \<noteq> CHR ''[''"
    by (auto simp: find_char_Some_iff)
  from cls have cl: "opn + 1 \<le> cls" "cls < length t" "t ! cls = CHR '']''"
    by (auto simp: find_char_Some_iff)
  have "t = take opn t @ drop opn t" by simp
  also have "drop opn t = t ! opn # drop (Suc opn) t" using Cons_nth_drop_Suc [of opn t] o(1) by simp
  also have "drop (Suc opn) t = take (cls - Suc opn) (drop (Suc opn) t) @ drop (cls - Suc opn) (drop (Suc opn) t)"
    by (rule append_take_drop_id [symmetric])
  also have "drop (cls - Suc opn) (drop (Suc opn) t) = drop cls t" using cl by simp
  also have "drop cls t = [t ! cls]"
  proof -
    have "drop cls t = t ! cls # drop (Suc cls) t" using Cons_nth_drop_Suc [of cls t] cl(2) by simp
    moreover have "Suc cls = length t" using c(2) cl by simp
    ultimately show ?thesis by simp
  qed
  finally have t: "t = nm @ ''['' @ k @ '']''"
    using o cl by (simp add: nm_def k_def substr_def)
  have nmb: "CHR ''['' \<notin> set nm"
    using o by (auto simp: nm_def substr_def in_set_conv_nth)
  have nmne: "nm \<noteq> []" using c(1) o(1) ne by (simp add: nm_def substr_def)
  from ri have "decimal_value k \<le> ULONG_MAX" "ri = decimal_value k"
    by (auto simp: stoul_def split: if_splits)
  with t nmb nmne c3 ok show ?thesis using ne by blast
qed

section \<open>Target validation: the index check\<close>

text \<open>
  Claim C3, for the instructions that reach target validation. Let \<open>name[k]\<close> be one of
  the targets that \<open>validateTargets\<close> is given, with a non-empty \<open>name\<close> without \<open>[\<close> and a
  \<open>k\<close> of decimal digits, and let every other target of the list pass. If \<open>name\<close> is not
  shadowed, \<open>validateTargets\<close> throws a \<open>ParsingError\<close> exactly when \<open>name\<close> is not a declared
  register or \<open>k\<close> is not below its size. If \<open>name\<close> is shadowed (and \<open>k\<close> fits an
  \<open>unsigned long\<close>), nothing is thrown, whatever the registers are.
\<close>

theorem validateTargets_index_check:
  assumes "nm \<noteq> []" and "CHR ''['' \<notin> set nm" and "isDigits k"
    and "nm @ ''['' @ k @ '']'' \<in> set ts"
    and "\<forall>t\<in>set ts. t \<noteq> nm @ ''['' @ k @ '']'' \<longrightarrow> validateTarget code start t regs sh ctx = Inr ()"
    and "\<forall>n. regs nm = Some n \<longrightarrow> n \<le> ULONG_MAX"
  shows "(nm \<notin> set sh \<longrightarrow>
            ((\<exists>e. validateTargets code start ts regs sh ctx = Inl (ParsingErr e))
               \<longleftrightarrow> (regs nm = None \<or> (\<exists>n. regs nm = Some n \<and> n \<le> decimal_value k))))
       \<and> (nm \<in> set sh \<and> decimal_value k \<le> ULONG_MAX \<longrightarrow>
            validateTargets code start ts regs sh ctx = Inr ())"
proof -
  let ?t = "nm @ ''['' @ k @ '']''"
  have ind: "validateTarget code start ?t regs sh ctx =
           (if decimal_value k \<le> ULONG_MAX \<and>
               (nm \<in> set sh \<or> (\<exists>n. regs nm = Some n \<and> decimal_value k < n))
            then Inr () else Inl (invalidTarget code start ?t ctx))"
    using assms(1-3) by (rule validateTarget_indexed)
  have all: "validateTargets code start ts regs sh ctx = Inr () \<longleftrightarrow>
               validateTarget code start ?t regs sh ctx = Inr ()"
    using assms(4,5) by (auto simp: validateTargets_Inr_iff)
  have out: "(\<exists>e. validateTargets code start ts regs sh ctx = Inl (ParsingErr e)) \<longleftrightarrow>
               validateTargets code start ts regs sh ctx \<noteq> Inr ()"
    using validateTargets_outcome [of code start ts regs sh ctx]
    by (auto simp: parsingOutcome_iff)
  show ?thesis
  proof (intro conjI impI)
    assume ns: "nm \<notin> set sh"
    show "(\<exists>e. validateTargets code start ts regs sh ctx = Inl (ParsingErr e))
               \<longleftrightarrow> (regs nm = None \<or> (\<exists>n. regs nm = Some n \<and> n \<le> decimal_value k))"
    proof (cases "regs nm")
      case None
      with ns show ?thesis unfolding out all ind by simp
    next
      case (Some n)
      with assms(6) have "n \<le> ULONG_MAX" by simp
      with Some ns show ?thesis unfolding out all ind by auto
    qed
  next
    assume "nm \<in> set sh \<and> decimal_value k \<le> ULONG_MAX"
    then show "validateTargets code start ts regs sh ctx = Inr ()"
      unfolding all ind by simp
  qed
qed

lemma isDigits_5: "isDigits ''5''" by (simp add: isDigits_def isdigit_def)
lemma dv5: "decimal_value ''5'' = 5" by (simp add: decimal_value_def digit_value_def)

theorem validateTargets_index_check_witness:
  "(\<exists>e. validateTargets ''qreg q[2]; cx a, q[5];'' 11 [''a'', ''q[5]''] (Map.empty(''q'' \<mapsto> 2)) [] [] = Inl (ParsingErr e))
   \<and> validateTargets ''x q[5];'' 0 [''a'', ''q[5]''] (Map.empty(''q'' \<mapsto> 2)) [''q''] [] = Inr ()"
proof -
  have a: "\<forall>t\<in>set [''a'', ''q[5]'']. t \<noteq> ''q'' @ ''['' @ ''5'' @ '']'' \<longrightarrow>
             validateTarget code start t regs sh ctx = Inr ()" for code start regs sh ctx
    by (simp add: validateTarget_bare)
  have b: "\<forall>n. (Map.empty(''q'' \<mapsto> (2::nat))) ''q'' = Some n \<longrightarrow> n \<le> ULONG_MAX"
    by (simp add: ULONG_MAX_def)
  have m: "''q'' @ ''['' @ ''5'' @ '']'' \<in> set [''a'', ''q[5]'']" by simp
  have ne: "''q'' \<noteq> []" "CHR ''['' \<notin> set ''q''" by simp_all
  note th1 = validateTargets_index_check [where nm = "''q''" and k = "''5''"
      and ts = "[''a'', ''q[5]'']" and regs = "Map.empty(''q'' \<mapsto> 2)"
      and code = "''qreg q[2]; cx a, q[5];''" and start = 11 and sh = "[]" and ctx = "[]"]
  note th2 = validateTargets_index_check [where nm = "''q''" and k = "''5''"
      and ts = "[''a'', ''q[5]'']" and regs = "Map.empty(''q'' \<mapsto> 2)"
      and code = "''x q[5];''" and start = 0 and sh = "[''q'']" and ctx = "[]"]
  from th1 [OF ne isDigits_5 m a b]
  have 1: "\<exists>e. validateTargets ''qreg q[2]; cx a, q[5];'' 11 [''a'', ''q[5]''] (Map.empty(''q'' \<mapsto> 2)) [] [] = Inl (ParsingErr e)"
    by (simp add: dv5)
  from th2 [OF ne isDigits_5 m a b]
  have 2: "validateTargets ''x q[5];'' 0 [''a'', ''q[5]''] (Map.empty(''q'' \<mapsto> 2)) [''q''] [] = Inr ()"
    by (simp add: dv5 ULONG_MAX_def)
  from 1 2 show ?thesis by blast
qed

section \<open>Comment stripping\<close>

definition slashAt :: "string \<Rightarrow> nat \<Rightarrow> bool" where
  \<comment> \<open>an occurrence of \<open>//\<close> at position \<open>j\<close>\<close>
  "slashAt s j \<longleftrightarrow> j + 1 < length s \<and> s ! j = CHR ''/'' \<and> s ! (j + 1) = CHR ''/''"

definition inComment :: "string \<Rightarrow> nat \<Rightarrow> bool" where
  \<comment> \<open>position \<open>i\<close> lies between an occurrence of \<open>//\<close> and the next newline after it\<close>
  "inComment s i \<longleftrightarrow> (\<exists>j\<in>{0..i}. slashAt s j \<and> (\<forall>k\<in>{j..i}. s ! k \<noteq> CHR 0x0A))"

definition commentsBlanked :: "string \<Rightarrow> string" where
  \<comment> \<open>the text with every position inside a comment replaced by a space\<close>
  "commentsBlanked s = map (\<lambda>i. if inComment s i then CHR '' '' else s ! i) [0..<length s]"

lemma slashAt_Cons_Suc: "slashAt (x # xs) (Suc j) = slashAt xs j"
  by (simp add: slashAt_def)

lemma slashAt_Cons_0: "slashAt (x # xs) 0 \<longleftrightarrow> prefix ''//'' (x # xs)"
  by (cases xs) (auto simp: slashAt_def)

lemma index_of_str_slash:
  "index_of_str ''//'' xs = Some i \<longleftrightarrow> slashAt xs i \<and> (\<forall>j<i. \<not> slashAt xs j)"
proof (induction xs arbitrary: i)
  case Nil
  show ?case by (simp add: slashAt_def)
next
  case (Cons x xs)
  show ?case
  proof (cases "prefix ''//'' (x # xs)")
    case True
    then have s0: "slashAt (x # xs) 0" by (simp only: slashAt_Cons_0)
    have e: "index_of_str ''//'' (x # xs) = Some 0"
      by (subst index_of_str.simps) (simp only: True if_True)
    show ?thesis unfolding e using s0 by (cases i) auto
  next
    case False
    then have n0: "\<not> slashAt (x # xs) 0" by (simp only: slashAt_Cons_0 not_False_eq_True)
    show ?thesis
    proof (cases i)
      case 0
      have "index_of_str ''//'' (x # xs) = map_option Suc (index_of_str ''//'' xs)"
        by (subst index_of_str.simps) (simp only: False if_False)
      with 0 n0 show ?thesis by auto
    next
      case (Suc i')
      have "(\<forall>j<Suc i'. \<not> slashAt (x # xs) j) \<longleftrightarrow> (\<forall>j<i'. \<not> slashAt xs j)"
        using n0 by (auto simp: All_less_Suc2 slashAt_Cons_Suc)
      moreover have "index_of_str ''//'' (x # xs) = map_option Suc (index_of_str ''//'' xs)"
        by (subst index_of_str.simps) (simp only: False if_False)
      ultimately show ?thesis using Suc Cons [of i']
        by (auto simp: slashAt_Cons_Suc)
    qed
  qed
qed

lemma index_of_str_slash_None: "index_of_str ''//'' xs = None \<longleftrightarrow> (\<forall>j. \<not> slashAt xs j)"
proof (induction xs)
  case Nil
  show ?case by (simp add: slashAt_def)
next
  case (Cons x xs)
  show ?case
  proof (cases "prefix ''//'' (x # xs)")
    case True
    then have s0: "slashAt (x # xs) 0" by (simp only: slashAt_Cons_0)
    have e: "index_of_str ''//'' (x # xs) = Some 0"
      by (subst index_of_str.simps) (simp only: True if_True)
    show ?thesis unfolding e using s0 by auto
  next
    case False
    then have n0: "\<not> slashAt (x # xs) 0" by (simp only: slashAt_Cons_0 not_False_eq_True)
    have "(\<forall>j. \<not> slashAt (x # xs) j) \<longleftrightarrow> (\<forall>j. \<not> slashAt xs j)"
    proof
      assume a: "\<forall>j. \<not> slashAt (x # xs) j"
      show "\<forall>j. \<not> slashAt xs j"
      proof
        fix j from a have "\<not> slashAt (x # xs) (Suc j)" by blast
        then show "\<not> slashAt xs j" by (simp add: slashAt_Cons_Suc)
      qed
    next
      assume a: "\<forall>j. \<not> slashAt xs j"
      show "\<forall>j. \<not> slashAt (x # xs) j"
      proof
        fix j show "\<not> slashAt (x # xs) j" using n0 a by (cases j) (auto simp: slashAt_Cons_Suc)
      qed
    qed
    moreover have "index_of_str ''//'' (x # xs) = map_option Suc (index_of_str ''//'' xs)"
      by (subst index_of_str.simps) (simp only: False if_False)
    ultimately show ?thesis using Cons by simp
  qed
qed

lemma slashAt_drop: "slashAt (drop pos s) j = slashAt s (pos + j)"
  by (auto simp: slashAt_def add.assoc)

lemma find_slash_Some:
  assumes "find_str r ''//'' pos = Some nc"
  shows "pos \<le> nc \<and> slashAt r nc \<and> (\<forall>j. pos \<le> j \<and> j < nc \<longrightarrow> \<not> slashAt r j)"
proof -
  from assms obtain i where i: "index_of_str ''//'' (drop pos r) = Some i" "nc = pos + i"
    by (auto simp: find_str_def split: if_splits)
  then have a: "slashAt r (pos + i)" "\<forall>j<i. \<not> slashAt r (pos + j)"
    by (auto simp: index_of_str_slash slashAt_drop)
  have "\<not> slashAt r j" if "pos \<le> j" "j < nc" for j
  proof -
    from that i have "j - pos < i" "j = pos + (j - pos)" by auto
    with a(2) show ?thesis by metis
  qed
  with a i show ?thesis by auto
qed

lemma find_slash_None:
  assumes "find_str r ''//'' pos = None"
  shows "\<forall>j. pos \<le> j \<longrightarrow> \<not> slashAt r j"
proof (intro allI impI)
  fix j assume j: "pos \<le> j"
  show "\<not> slashAt r j"
  proof (cases "length r < pos")
    case True
    with j show ?thesis by (simp add: slashAt_def)
  next
    case False
    with assms have "index_of_str ''//'' (drop pos r) = None" by (simp add: find_str_def)
    then have "\<not> slashAt r (pos + (j - pos))" by (simp add: index_of_str_slash_None slashAt_drop)
    with j show ?thesis by simp
  qed
qed


lemma blankComment_facts:
  assumes sl: "slashAt r nc" and first: "\<forall>j<nc. \<not> slashAt r j"
  obtains ce where "nc + 2 \<le> ce" "ce \<le> length r"
    "\<forall>k. nc \<le> k \<and> k < ce \<longrightarrow> r ! k \<noteq> CHR 0x0A"
    "ce < length r \<longrightarrow> r ! ce = CHR 0x0A"
    "length (blankComment r nc) = length r"
    "\<forall>i<length r. blankComment r nc ! i = (if nc \<le> i \<and> i < ce then CHR '' '' else r ! i)"
proof -
  define ce where "ce = (case find_char r (CHR 0x0A) nc of None \<Rightarrow> length r | Some e \<Rightarrow> e)"
  from sl have nc: "nc + 1 < length r" "r ! nc = CHR ''/''" "r ! (nc + 1) = CHR ''/''"
    by (auto simp: slashAt_def)
  have "(\<forall>k. nc \<le> k \<and> k < ce \<longrightarrow> r ! k \<noteq> CHR 0x0A) \<and> ce \<le> length r
        \<and> (ce < length r \<longrightarrow> r ! ce = CHR 0x0A) \<and> nc \<le> ce"
  proof (cases "find_char r (CHR 0x0A) nc")
    case None
    then have ce: "ce = length r" by (simp add: ce_def)
    from None have "\<forall>q. nc \<le> q \<and> q < length r \<longrightarrow> r ! q \<noteq> CHR 0x0A"
      by (simp add: find_char_None_iff)
    with nc show ?thesis unfolding ce by simp
  next
    case (Some e)
    then have ce: "ce = e" by (simp add: ce_def)
    from Some have "nc \<le> e \<and> e < length r \<and> r ! e = CHR 0x0A
        \<and> (\<forall>q. nc \<le> q \<and> q < e \<longrightarrow> r ! q \<noteq> CHR 0x0A)"
      by (simp add: find_char_Some_iff)
    then show ?thesis unfolding ce by simp
  qed
  then have nonl: "\<forall>k. nc \<le> k \<and> k < ce \<longrightarrow> r ! k \<noteq> CHR 0x0A"
    and le: "ce \<le> length r" and nl: "ce < length r \<longrightarrow> r ! ce = CHR 0x0A" and ge: "nc \<le> ce"
    by blast+
  have ge2: "nc + 2 \<le> ce"
  proof (rule ccontr)
    assume "\<not> nc + 2 \<le> ce"
    with ge have "ce = nc \<or> ce = nc + 1" by auto
    with nl nc show False by auto
  qed
  have bc: "blankComment r nc = take nc r @ replicate (ce - nc) (CHR '' '') @ drop ce r"
    using ge by (simp add: blankComment_def ce_def replace_str_def Let_def)
  have len: "length (blankComment r nc) = length r"
    using ge le by (simp add: bc)
  have nth: "\<forall>i<length r. blankComment r nc ! i = (if nc \<le> i \<and> i < ce then CHR '' '' else r ! i)"
  proof (intro allI impI)
    fix i assume i: "i < length r"
    show "blankComment r nc ! i = (if nc \<le> i \<and> i < ce then CHR '' '' else r ! i)"
    proof (cases "i < nc")
      case True
      with i show ?thesis by (simp add: bc nth_append)
    next
      case False
      show ?thesis
      proof (cases "i < ce")
        case True
        with False have "i - nc < ce - nc" by arith
        with True False i ge le show ?thesis by (simp add: bc nth_append)
      next
        case c: False
        from c False ge have a: "\<not> i - nc < ce - nc" "i - nc - (ce - nc) = i - ce" by arith+
        from False i ge le have "(take nc r @ replicate (ce - nc) (CHR '' '') @ drop ce r) ! i
            = (replicate (ce - nc) (CHR '' '') @ drop ce r) ! (i - nc)"
          by (simp add: nth_append)
        also have "\<dots> = drop ce r ! (i - ce)"
          using a by (simp add: nth_append)
        also have "\<dots> = r ! i" using c le i by simp
        finally show ?thesis using c by (simp add: bc)
      qed
    qed
  qed
  from that [OF ge2 le nonl nl len nth] show ?thesis .
qed

lemma blankComment_step:
  assumes sl: "slashAt r nc" and first: "\<forall>j<nc. \<not> slashAt r j"
  shows "commentsBlanked (blankComment r nc) = commentsBlanked r"
    and "\<forall>j. slashAt (blankComment r nc) j \<longrightarrow> nc + 2 \<le> j"
proof -
  let ?r' = "blankComment r nc"
  from blankComment_facts [OF sl first] obtain ce where
    ge2: "nc + 2 \<le> ce" and le: "ce \<le> length r"
    and nonl: "\<forall>k. nc \<le> k \<and> k < ce \<longrightarrow> r ! k \<noteq> CHR 0x0A"
    and nl: "ce < length r \<longrightarrow> r ! ce = CHR 0x0A"
    and len: "length ?r' = length r"
    and nth: "\<forall>i<length r. ?r' ! i = (if nc \<le> i \<and> i < ce then CHR '' '' else r ! i)"
    by blast
  have sl': "slashAt ?r' j \<longleftrightarrow> ce \<le> j \<and> slashAt r j" for j
  proof
    assume a: "slashAt ?r' j"
    then have j: "j + 1 < length r" "?r' ! j = CHR ''/''" "?r' ! (j + 1) = CHR ''/''"
      by (auto simp: slashAt_def len)
    from j nth have o1: "\<not> (nc \<le> j \<and> j < ce)" "r ! j = CHR ''/''"
      by (auto split: if_splits)
    from j nth have o2: "\<not> (nc \<le> j + 1 \<and> j + 1 < ce)" "r ! (j + 1) = CHR ''/''"
      by (auto split: if_splits)
    from j o1 o2 have sr: "slashAt r j" by (simp add: slashAt_def)
    with first have "nc \<le> j" by (meson not_le)
    with o1 have "ce \<le> j" by simp
    with sr show "ce \<le> j \<and> slashAt r j" by simp
  next
    assume a: "ce \<le> j \<and> slashAt r j"
    then have "j + 1 < length r" "r ! j = CHR ''/''" "r ! (j + 1) = CHR ''/''"
      by (auto simp: slashAt_def)
    with a nth show "slashAt ?r' j" by (simp add: slashAt_def len)
  qed
  show "\<forall>j. slashAt ?r' j \<longrightarrow> nc + 2 \<le> j"
    using sl' ge2 by auto
  have ic: "inComment ?r' i \<longleftrightarrow> inComment r i" if i: "i < length r" "\<not> (nc \<le> i \<and> i < ce)" for i
  proof
    assume "inComment ?r' i"
    then obtain j where j: "j \<le> i" "slashAt ?r' j" "\<forall>k\<in>{j..i}. ?r' ! k \<noteq> CHR 0x0A"
      by (auto simp: inComment_def)
    from j(2) have cj: "ce \<le> j" "slashAt r j" by (auto simp: sl')
    have "\<forall>k\<in>{j..i}. r ! k \<noteq> CHR 0x0A"
    proof
      fix k assume k: "k \<in> {j..i}"
      with cj i nth have "?r' ! k = r ! k" by auto
      with j(3) k show "r ! k \<noteq> CHR 0x0A" by auto
    qed
    with j(1) cj show "inComment r i" by (auto simp: inComment_def)
  next
    assume "inComment r i"
    then obtain j where j: "j \<le> i" "slashAt r j" "\<forall>k\<in>{j..i}. r ! k \<noteq> CHR 0x0A"
      by (auto simp: inComment_def)
    from j(2) first have ncj: "nc \<le> j" by (meson not_le)
    have cj: "ce \<le> j"
    proof (rule ccontr)
      assume "\<not> ce \<le> j"
      with ncj j(1) i have "ce \<le> i" "ce \<in> {j..i}" by auto
      with i(1) nl j(3) show False by auto
    qed
    have "\<forall>k\<in>{j..i}. ?r' ! k \<noteq> CHR 0x0A"
    proof
      fix k assume k: "k \<in> {j..i}"
      with cj i nth have "?r' ! k = r ! k" by auto
      with j(3) k show "?r' ! k \<noteq> CHR 0x0A" by auto
    qed
    with j(1) cj j(2) show "inComment ?r' i" by (auto simp: inComment_def sl')
  qed
  have inside: "inComment r i" if i: "nc \<le> i" "i < ce" for i
  proof -
    have "\<forall>k\<in>{nc..i}. r ! k \<noteq> CHR 0x0A" using nonl i by auto
    with sl i show ?thesis by (auto simp: inComment_def)
  qed
  show "commentsBlanked ?r' = commentsBlanked r"
  proof (rule nth_equalityI)
    show "length (commentsBlanked ?r') = length (commentsBlanked r)"
      by (simp add: commentsBlanked_def len)
  next
    fix i assume "i < length (commentsBlanked ?r')"
    then have i: "i < length r" by (simp add: commentsBlanked_def len)
    show "commentsBlanked ?r' ! i = commentsBlanked r ! i"
    proof (cases "nc \<le> i \<and> i < ce")
      case True
      with inside have "inComment r i" by simp
      moreover from True nth [rule_format, OF i] have "?r' ! i = CHR '' ''" by simp
      ultimately show ?thesis using i by (simp add: commentsBlanked_def len)
    next
      case False
      with ic [OF i] have "inComment ?r' i \<longleftrightarrow> inComment r i" by simp
      moreover from False nth [rule_format, OF i] have "?r' ! i = r ! i" by auto
      ultimately show ?thesis using i by (simp add: commentsBlanked_def len)
    qed
  qed
qed

lemma commentsBlanked_none:
  assumes "\<forall>j. \<not> slashAt r j"
  shows "commentsBlanked r = r"
proof -
  from assms have "\<not> inComment r i" for i by (auto simp: inComment_def)
  then show ?thesis by (simp add: commentsBlanked_def map_nth)
qed

lemma removeCommentsLoop_blanks:
  "\<forall>j<2 * pos. \<not> slashAt r j \<Longrightarrow> removeCommentsLoop r pos = commentsBlanked r"
proof (induction r pos rule: removeCommentsLoop.induct)
  case (1 result pos)
  show ?case
  proof (cases "pos < length result")
    case False
    have "\<not> slashAt result j" for j
    proof (cases "j < 2 * pos")
      case True
      with 1(2) show ?thesis by simp
    next
      case f: False
      with False show ?thesis by (simp add: slashAt_def)
    qed
    then have "commentsBlanked result = result" by (simp add: commentsBlanked_none)
    with False show ?thesis by (simp add: removeCommentsLoop.simps)
  next
    case True
    show ?thesis
    proof (cases "find_str result ''//'' pos")
      case None
      have "\<not> slashAt result j" for j
      proof (cases "j < 2 * pos")
        case True
        with 1(2) show ?thesis by simp
      next
        case False
        then have "pos \<le> j" by simp
        with find_slash_None [OF None] show ?thesis by simp
      qed
      then have "commentsBlanked result = result" by (simp add: commentsBlanked_none)
      with True None show ?thesis by (simp add: removeCommentsLoop.simps)
    next
      case (Some nc)
      from find_slash_Some [OF Some] have nc: "pos \<le> nc" "slashAt result nc"
        "\<forall>j. pos \<le> j \<and> j < nc \<longrightarrow> \<not> slashAt result j" by auto
      have first: "\<forall>j<nc. \<not> slashAt result j"
      proof (intro allI impI)
        fix j assume "j < nc"
        show "\<not> slashAt result j"
        proof (cases "j < 2 * pos")
          case True
          with 1(2) show ?thesis by simp
        next
          case False
          then have "pos \<le> j" by simp
          with nc(3) \<open>j < nc\<close> show ?thesis by simp
        qed
      qed
      have "2 * pos \<le> nc"
      proof (rule ccontr)
        assume "\<not> 2 * pos \<le> nc"
        with 1(2) nc(2) show False by simp
      qed
      with blankComment_step(2) [OF nc(2) first]
      have inv: "\<forall>j<2 * (pos + 1). \<not> slashAt (blankComment result nc) j" by fastforce
      have "removeCommentsLoop result pos = removeCommentsLoop (blankComment result nc) (pos + 1)"
        using True Some by (subst removeCommentsLoop.simps) simp
      also have "\<dots> = commentsBlanked (blankComment result nc)"
        using 1(1) [OF True Some inv] .
      also have "\<dots> = commentsBlanked result"
        using blankComment_step(1) [OF nc(2) first] .
      finally show ?thesis .
    qed
  qed
qed

text \<open>
  Claim C7. For every input, \<open>removeComments\<close> returns a string of the same length; a
  position that lies between an occurrence of \<open>//\<close> and the next newline after it (or the
  end of the string) holds a space, every other position holds the character of the
  input.
\<close>

theorem removeComments_blanks:
  "length (removeComments s) = length s \<and>
   (\<forall>i<length s. removeComments s ! i = (if inComment s i then CHR '' '' else s ! i))"
proof -
  have "removeComments s = commentsBlanked s"
    unfolding removeComments_def by (rule removeCommentsLoop_blanks) simp
  then show ?thesis by (simp add: commentsBlanked_def)
qed


theorem removeComments_blanks_witness:
  "length (removeComments ''a//b'') = 4 \<and> removeComments ''a//b'' ! 0 = CHR ''a''
   \<and> removeComments ''a//b'' ! 2 = CHR '' ''"
proof -
  have in2: "inComment ''a//b'' 2"
    unfolding inComment_def by (rule bexI [of _ 1]) (auto simp: slashAt_def nth_Cons')
  have out0: "\<not> inComment ''a//b'' 0"
    by (simp add: inComment_def slashAt_def)
  from removeComments_blanks [of "''a//b''"] in2 out0 show ?thesis by simp
qed

section \<open>The effect of one iteration\<close>







section \<open>The last loop: linking the calls\<close>
















section \<open>The preprocessor on concrete programs\<close>

text \<open>The definitions that the simplifier unfolds to run the model on a concrete text.\<close>


lemmas eval_defs =
  preprocessCode_def preprocessBody_def mainLoop_def removeComments_def removeCommentsLoop.simps blankComment_def
  sweepBlocks_def sweepBlocksLoop.simps sweepFunctionNames_def fragmentsFrom.simps
  processLine_def readLine_def parseParameters.simps plainParameters_def
  isFunctionDefinition_def isMeasurement_def isClassicControlledGate_def isVariableDeclaration_def
  declareRegister_def defineGate_def gateHeader_def gateReturn_def emitInstruction_def linkCall_def
  find_char_def find_str_def find_first_not_of_def rfind_char_def substr_def replace_str_def
  starts_with_def splitString_def trim_def isspace_def removeWhitespace_def blanksToSpaces_def
  size_add_def size_sub_def SIZE_MOD_def isAssertion_def isDigits_def isdigit_def stoul_def
  decimal_value_def digit_value_def ULONG_MAX_def map_insert_def alist_insert_def mkInstruction_def
  parseFunctionDefinition_def blocks_at_def blockNameOf_def to_string.simps digit_char_def
  parseAssertion_def parseKind_def validate_def unfoldAssertionTargetRegisters_def
  validateTarget_def invalidTarget_def invalidRegister_def invalidRegisterDetail_def
  invalidTargetDetail_def formatParseError_def lineColumnForTarget_def lineColumnForOffset_def
  lineStartOf_def ParsingError_msg_def Let_def




lemma eval_assert:
  "preprocessCode ''assert-sup foo;'' =
    Inr ([\<lparr>lineNumber = 0, instrCode = ''assert-sup foo;'',
          assertion = Some \<lparr>kind = Superposition, targetQubits = [''foo''], body = []\<rparr>,
          targets = [''foo''], originalCodeStartPosition = 0,
          originalCodeEndPosition = 14, successorIndex = 1,
          isFunctionCall = False, calledFunction = [],
          inFunctionDefinition = False, isFunctionDef = False,
          block = \<lparr>valid = False, blockCode = []\<rparr>, childInstructions = [],
          callSubstitution = []\<rparr>],
      ''assert-sup foo;'')"
  by (simp add: eval_defs cong: let_weak_cong)





section \<open>Successor indices\<close>




section \<open>Parsing errors\<close>











definition messageOnly :: "failure \<Rightarrow> bool" where
  \<comment> \<open>a failure that, when it is a \<open>ParsingError\<close>, was built by the constructor that takes
      the message alone: no line, no column, the detail is the message\<close>
  "messageOnly f = (case f of ParsingErr e \<Rightarrow> e = ParsingError_msg (what e) | _ \<Rightarrow> True)"

lemma messageOnly_simps [simp]:
  "messageOnly (ParsingErr (ParsingError_msg m))" "messageOnly StdOutOfRange"
  "messageOnly UndefinedBehaviour" "messageOnly OutOfFuel"
  by (simp_all add: messageOnly_def ParsingError_msg_def)

















section \<open>Register declarations\<close>






lemma map_insert_new: "regs k = None \<Longrightarrow> map_insert regs k v = regs(k \<mapsto> v)"
  by (simp add: map_insert_def)




















section \<open>Linking the calls\<close>








lemma map_insert_Some:
  "map_insert m k v k' = Some w \<Longrightarrow> m k' = Some w \<or> (m k = None \<and> k' = k \<and> w = v)"
  by (auto simp: map_insert_def split: option.splits if_splits)





















lemma eval_header:
  "preprocessCode ''gate f q[7]{x q;}'' =
    Inr ([\<lparr>lineNumber = 0, instrCode = ''gate f q[7]'', assertion = None,
              targets = [''q[7]''], originalCodeStartPosition = 0,
              originalCodeEndPosition = 16, successorIndex = 3,
              isFunctionCall = False, calledFunction = [],
              inFunctionDefinition = False, isFunctionDef = True,
              block = \<lparr>valid = True, blockCode = ''x q;''\<rparr>,
              childInstructions = [1], callSubstitution = []\<rparr>,
           \<lparr>lineNumber = 1, instrCode = ''x q;'', assertion = None,
              targets = [''q''], originalCodeStartPosition = 12,
              originalCodeEndPosition = 15, successorIndex = 2,
              isFunctionCall = False, calledFunction = [],
              inFunctionDefinition = True, isFunctionDef = False,
              block = \<lparr>valid = False, blockCode = []\<rparr>, childInstructions = [],
              callSubstitution = []\<rparr>,
           \<lparr>lineNumber = 2, instrCode = ''RETURN'', assertion = None,
              targets = [''q[7]''], originalCodeStartPosition = 16,
              originalCodeEndPosition = 16, successorIndex = 0,
              isFunctionCall = False, calledFunction = [],
              inFunctionDefinition = True, isFunctionDef = False,
              block = \<lparr>valid = False, blockCode = []\<rparr>, childInstructions = [],
              callSubstitution = []\<rparr>],
          ''gate f q[7]{x q;}'')"
  by (simp add: eval_defs cong: let_weak_cong)








end
